theory Spec2Isabelle
  imports Complex_Main
begin

section \<open>Word extraction: \<open>WordCloudSeries.getWords\<close>\<close>

text \<open>
  Strings are lists of characters. A \<^typ>\<open>char\<close> is read as one UTF-16 code unit in
  the range U+0000..U+00FF, so the model covers the texts written in that block; on it
  \<open>String.prototype.toLowerCase\<close> and the character class of the regular expression
  are the functions below. Numbers that the constructor leaves unset (\<open>minValue\<close>,
  \<open>maxCount\<close>) are options: \<open>None\<close> is JavaScript's \<open>undefined\<close>, and every
  comparison with it is false.
\<close>

datatype size_spec = Number real | Percent real

record properties =
  minFontSize :: size_spec
  maxFontSize :: size_spec
  minValue :: "nat option"
  maxCount :: "nat option"
  excludeWords :: "string list"
  randomness :: real
  minWordLength :: nat
  angles :: "real list"
  rotationThreshold :: real
  accuracy :: nat

record entry =
  word :: string
  val :: nat

definition in_range :: "nat \<Rightarrow> nat \<Rightarrow> char \<Rightarrow> bool" where
  "in_range lo hi c = (lo \<le> of_char c \<and> of_char c \<le> hi)"

text \<open>
  The character class of \<open>reg\<close>, cut at U+00FF: A-Z, a-z, U+00AA, U+00B5, U+00BA,
  U+00C0-U+00D6, U+00D8-U+00F6, U+00F8 and above, and the tail \<open>0-9@+\<close>. No character
  of the block outside the class has a case variant inside it, so the flag \<open>i\<close> adds
  nothing here.
\<close>

definition reg_class :: "char \<Rightarrow> bool" where
  "reg_class c =
     (in_range 0x41 0x5A c \<or> in_range 0x61 0x7A c \<or> in_range 0xAA 0xAA c
      \<or> in_range 0xB5 0xB5 c \<or> in_range 0xBA 0xBA c \<or> in_range 0xC0 0xD6 c
      \<or> in_range 0xD8 0xF6 c \<or> in_range 0xF8 0xFF c \<or> in_range 0x30 0x39 c
      \<or> c = CHR ''@'' \<or> c = CHR ''+'')"

text \<open>
  \<open>input.match(reg)\<close> with the flag \<open>g\<close>: the maximal runs of class characters,
  from left to right; \<open>null\<close> when there is none. \<open>cur\<close> is the run being read.
\<close>

fun scan_tokens :: "string \<Rightarrow> string \<Rightarrow> string list" where
  "scan_tokens cur [] = (if cur = [] then [] else [cur])"
| "scan_tokens cur (c # cs) =
     (if reg_class c then scan_tokens (cur @ [c]) cs
      else if cur = [] then scan_tokens [] cs
      else cur # scan_tokens [] cs)"

definition match_reg :: "string \<Rightarrow> string list option" where
  "match_reg input = (case scan_tokens [] input of [] \<Rightarrow> None | t # ts \<Rightarrow> Some (t # ts))"

definition lower_char :: "char \<Rightarrow> char" where
  "lower_char c =
     (if in_range 0x41 0x5A c \<or> in_range 0xC0 0xD6 c \<or> in_range 0xD8 0xDE c
      then char_of (of_char c + (32::nat)) else c)"

definition toLowerCase :: "string \<Rightarrow> string" where
  "toLowerCase s = map lower_char s"

text \<open>
  \<open>isCapitalized\<close>: \<open>word[0]\<close> of the empty string is \<open>undefined\<close> on both sides, which
  \<open>take 1\<close> gives as well; \<open>substr(1)\<close> is \<open>drop 1\<close>.
\<close>

definition isCapitalized :: "string \<Rightarrow> bool" where
  "isCapitalized w =
     (let lword = toLowerCase w
      in take 1 w \<noteq> take 1 lword \<and> drop 1 w = drop 1 lword \<and> w \<noteq> lword)"

text \<open>
  The body of the \<open>while (word = res.pop())\<close> loop: the first entry whose lower-cased
  word equals the lower-cased token is incremented (and takes the token's spelling unless
  the token is capitalized); with no such entry a new one is pushed at the end.
\<close>

fun add_word :: "string \<Rightarrow> entry list \<Rightarrow> entry list" where
  "add_word w [] = [\<lparr>word = w, val = 1\<rparr>]"
| "add_word w (e # es) =
     (if toLowerCase (word e) = toLowerCase w
      then \<lparr>word = (if isCapitalized w then word e else w), val = val e + 1\<rparr> # es
      else e # add_word w es)"

text \<open>\<open>pop\<close> takes the tokens from the last to the first.\<close>

definition count_tokens :: "string list \<Rightarrow> entry list" where
  "count_tokens res = foldl (\<lambda>words w. add_word w words) [] (rev res)"

text \<open>\<open>splice(i, 1)\<close>; an index past the end removes nothing.\<close>

definition splice1 :: "nat \<Rightarrow> 'a list \<Rightarrow> 'a list" where
  "splice1 i xs = take i xs @ drop (Suc i) xs"

text \<open>\<open>n < b\<close> for a bound that may be \<open>undefined\<close>.\<close>

definition below :: "nat \<Rightarrow> nat option \<Rightarrow> bool" where
  "below n b = (case b of None \<Rightarrow> False | Some m \<Rightarrow> n < m)"

text \<open>
  The filter loop \<open>for (let i = words.length - 1; i >= 0; i--)\<close>; the first argument is
  \<open>i + 1\<close>. The three tests are three separate \<open>if\<close> statements on the entry \<open>w\<close> read at
  the start of the iteration, each with its own \<open>splice(i, 1)\<close>.
\<close>

fun filter_words :: "properties \<Rightarrow> nat \<Rightarrow> entry list \<Rightarrow> entry list" where
  "filter_words P 0 words = words"
| "filter_words P (Suc i) words =
     (let w = words ! i;
          words1 = (if below (val w) (minValue P) then splice1 i words else words);
          words2 = (if length (word w) < minWordLength P then splice1 i words1 else words1);
          words3 = (if word w \<in> set (excludeWords P) then splice1 i words2 else words2)
      in filter_words P i words3)"

text \<open>
  \<open>Array.prototype.sort\<close> with a comparator, as a stable insertion sort: \<open>x\<close> goes before
  the first element it does not compare greater than.
\<close>

fun insert_cmp :: "('a \<Rightarrow> 'a \<Rightarrow> int) \<Rightarrow> 'a \<Rightarrow> 'a list \<Rightarrow> 'a list" where
  "insert_cmp cmp x [] = [x]"
| "insert_cmp cmp x (y # ys) =
     (if cmp x y \<le> 0 then x # y # ys else y # insert_cmp cmp x ys)"

definition sort_cmp :: "('a \<Rightarrow> 'a \<Rightarrow> int) \<Rightarrow> 'a list \<Rightarrow> 'a list" where
  "sort_cmp cmp xs = foldr (insert_cmp cmp) xs []"

text \<open>The comparator both \<open>getWords\<close> and \<open>validate\<close> pass to \<open>sort\<close>, on a key.\<close>

definition compare_desc :: "('a \<Rightarrow> 'v::linorder) \<Rightarrow> 'a \<Rightarrow> 'a \<Rightarrow> int" where
  "compare_desc key a b = (if key a = key b then 0 else if key a > key b then - 1 else 1)"

definition getWords :: "properties \<Rightarrow> string \<Rightarrow> entry list option" where
  "getWords P input =
     (if input = [] then None
      else case match_reg input of
        None \<Rightarrow> Some []
      | Some res \<Rightarrow>
          (let words = count_tokens res;
               words1 = (if below 1 (minValue P) \<or> 1 < minWordLength P
                            \<or> 0 < length (excludeWords P)
                         then filter_words P (length words) words else words);
               words2 = sort_cmp (compare_desc val) words1;
               words3 = (case maxCount P of
                           None \<Rightarrow> words2
                         | Some m \<Rightarrow> if m < length words2 then take m words2 else words2)
           in Some words3))"

text \<open>The properties the constructor sets; \<open>minValue\<close> and \<open>maxCount\<close> stay unset.\<close>

definition default_properties :: properties where
  "default_properties =
     \<lparr>minFontSize = Percent 2, maxFontSize = Percent 20, minValue = None, maxCount = None,
      excludeWords = [], randomness = 2 / 10, minWordLength = 1, angles = [0, 0, 90],
      rotationThreshold = 7 / 10, accuracy = 5\<rparr>"

section \<open>The layout state of \<open>WordCloudSeries\<close>\<close>

text \<open>
  The numbers of the font size computation (the resolved font sizes, the position of a
  word between the lowest and the highest value, its font size, the scale factor
  \<open>_adjustedFont\<close> and the relative size compared with the rotation threshold) are
  IEEE 754 doubles, as JavaScript has them: a finite number \<open>Num r\<close>, where \<open>r\<close> is the
  real it stands for and \<open>Num 0\<close> is the positive zero, the negative zero, the two
  infinities and NaN.

  Coordinates, box measures, canvas sizes, the results of \<open>Math.random\<close> and the values
  of the data items are real numbers: they are taken to be finite, and the sums,
  products, halves and comparisons the layout makes of them to be exact. Where one of
  them, or a number a property was given, enters the font size computation, it does so
  as the double nearest to it. \<open>Math.round\<close> rounds halves up; the conversion of a canvas coordinate
  to an integer truncates towards zero.
\<close>

datatype number = Num real | NegZero | PosInf | NegInf | NaN

text \<open>
  The exponent \<open>e\<close> of a positive real \<open>x\<close>, with \<open>2^e \<le> x < 2^(e + 1)\<close>, found in at most
  \<open>k\<close> steps; beyond that the real is out of the range of the doubles on either side.
\<close>

fun binary_exponent :: "nat \<Rightarrow> real \<Rightarrow> int" where
  "binary_exponent 0 x = 0"
| "binary_exponent (Suc k) x =
     (if 2 \<le> x then binary_exponent k (x / 2) + 1
      else if x < 1 then binary_exponent k (x * 2) - 1
      else 0)"

definition pow2 :: "int \<Rightarrow> real" where
  "pow2 k = (if 0 \<le> k then 2 ^ nat k else 1 / 2 ^ nat (- k))"

definition round_half_even :: "real \<Rightarrow> int" where
  "round_half_even r =
     (if r - of_int \<lfloor>r\<rfloor> < 1 / 2 then \<lfloor>r\<rfloor>
      else if 1 / 2 < r - of_int \<lfloor>r\<rfloor> then \<lfloor>r\<rfloor> + 1
      else if even \<lfloor>r\<rfloor> then \<lfloor>r\<rfloor>
      else \<lfloor>r\<rfloor> + 1)"

text \<open>
  The distance between the doubles around \<open>x\<close>: 52 binary places below the exponent of
  \<open>x\<close>, and no less than \<open>2^-1074\<close> (the subnormal numbers).
\<close>

definition ulp :: "real \<Rightarrow> real" where
  "ulp x = pow2 (max (binary_exponent 2200 \<bar>x\<bar>) (- 1022) - 52)"

definition js_zero :: "bool \<Rightarrow> number" where
  "js_zero neg = (if neg then NegZero else Num 0)"

definition js_inf :: "bool \<Rightarrow> number" where
  "js_inf neg = (if neg then NegInf else PosInf)"

text \<open>
  The double nearest to a real, ties to the even significand; a magnitude that rounds
  to \<open>2^1024\<close> or more is an infinity, and one that rounds to nothing is a zero of the
  same sign. A decimal literal of the source, such as \<open>0.1\<close>, denotes \<open>to_double\<close> of it.
\<close>

definition to_double :: "real \<Rightarrow> number" where
  "to_double x =
     (if x = 0 then Num 0
      else
        (let m = ulp x * of_int (round_half_even (\<bar>x\<bar> / ulp x))
         in if pow2 1024 \<le> m then js_inf (x < 0)
            else if m = 0 then js_zero (x < 0)
            else Num (if x < 0 then - m else m)))"

fun is_neg :: "number \<Rightarrow> bool" where
  "is_neg (Num r) = (r < 0)"
| "is_neg NegZero = True"
| "is_neg NegInf = True"
| "is_neg PosInf = False"
| "is_neg NaN = False"

fun is_zero :: "number \<Rightarrow> bool" where
  "is_zero (Num r) = (r = 0)"
| "is_zero NegZero = True"
| "is_zero NegInf = False"
| "is_zero PosInf = False"
| "is_zero NaN = False"

fun is_inf :: "number \<Rightarrow> bool" where
  "is_inf (Num r) = False"
| "is_inf NegZero = False"
| "is_inf NegInf = True"
| "is_inf PosInf = True"
| "is_inf NaN = False"

text \<open>The real a finite number stands for (0 for the others).\<close>

fun real_of :: "number \<Rightarrow> real" where
  "real_of (Num r) = r"
| "real_of NegZero = 0"
| "real_of NegInf = 0"
| "real_of PosInf = 0"
| "real_of NaN = 0"

fun js_neg :: "number \<Rightarrow> number" where
  "js_neg (Num r) = (if r = 0 then NegZero else Num (- r))"
| "js_neg NegZero = Num 0"
| "js_neg NegInf = PosInf"
| "js_neg PosInf = NegInf"
| "js_neg NaN = NaN"

text \<open>
  \<open>a + b\<close>, \<open>a - b\<close>, \<open>a * b\<close> and \<open>a / b\<close>. A sum that is zero is the positive zero, unless
  both operands are the negative zero; a quotient by a zero is NaN for a zero dividend
  and an infinity otherwise.
\<close>

definition js_add :: "number \<Rightarrow> number \<Rightarrow> number" where
  "js_add a b =
     (if a = NaN \<or> b = NaN then NaN
      else if is_inf a \<and> is_inf b then (if a = b then a else NaN)
      else if is_inf a then a
      else if is_inf b then b
      else if real_of a + real_of b = 0 then js_zero (a = NegZero \<and> b = NegZero)
      else to_double (real_of a + real_of b))"

definition js_sub :: "number \<Rightarrow> number \<Rightarrow> number" where
  "js_sub a b = js_add a (js_neg b)"

definition js_mul :: "number \<Rightarrow> number \<Rightarrow> number" where
  "js_mul a b =
     (if a = NaN \<or> b = NaN then NaN
      else if (is_inf a \<and> is_zero b) \<or> (is_zero a \<and> is_inf b) then NaN
      else if is_inf a \<or> is_inf b then js_inf (is_neg a \<noteq> is_neg b)
      else if is_zero a \<or> is_zero b then js_zero (is_neg a \<noteq> is_neg b)
      else to_double (real_of a * real_of b))"

definition js_div :: "number \<Rightarrow> number \<Rightarrow> number" where
  "js_div a b =
     (if a = NaN \<or> b = NaN then NaN
      else if (is_inf a \<and> is_inf b) \<or> (is_zero a \<and> is_zero b) then NaN
      else if is_inf a \<or> is_zero b then js_inf (is_neg a \<noteq> is_neg b)
      else if is_inf b \<or> is_zero a then js_zero (is_neg a \<noteq> is_neg b)
      else to_double (real_of a / real_of b))"

text \<open>\<open>a < b\<close> and \<open>a <= b\<close>: false when an operand is NaN; the two zeros are equal.\<close>

definition js_lt :: "number \<Rightarrow> number \<Rightarrow> bool" where
  "js_lt a b =
     (if a = NaN \<or> b = NaN then False
      else if a = PosInf \<or> b = NegInf then False
      else if a = NegInf \<or> b = PosInf then True
      else real_of a < real_of b)"

definition js_le :: "number \<Rightarrow> number \<Rightarrow> bool" where
  "js_le a b =
     (if a = NaN \<or> b = NaN then False
      else if a = NegInf \<or> b = PosInf then True
      else if a = PosInf \<or> b = NegInf then False
      else real_of a \<le> real_of b)"

definition js_round :: "real \<Rightarrow> int" where
  "js_round r = \<lfloor>r + 1 / 2\<rfloor>"

definition to_long :: "real \<Rightarrow> int" where
  "to_long r = (if 0 \<le> r then \<lfloor>r\<rfloor> else \<lceil>r\<rceil>)"

text \<open>
  Modelled from the spec: \<open>Utils.relativeToValue\<close> and \<open>Percent\<close> are not among the
  sources. A font size is "absolute or canvas-relative": a number stands for itself, a
  percentage is taken of the full value it is resolved against.
\<close>

fun relativeToValue :: "size_spec \<Rightarrow> real \<Rightarrow> number" where
  "relativeToValue (Number n) full = to_double n"
| "relativeToValue (Percent p) full = js_mul (to_double full) (js_div (to_double p) (Num 100))"

datatype error = TypeError | IndexSizeError | ReferenceError

text \<open>
  A data item with the state of its label. \<open>rotation\<close> is \<open>None\<close> when the label was
  given \<open>undefined\<close>, the value of an array read out of range.
\<close>

record dataItem =
  currentText :: string
  itemValue :: real
  fontSize :: number
  rotation :: "real option"
  pixelX :: real
  pixelY :: real
  shown :: bool

record bbox =
  maxLeft :: real
  maxRight :: real
  maxTop :: real
  maxBottom :: real
  pixelMarginLeft :: real
  pixelMarginRight :: real
  pixelMarginTop :: real
  pixelMarginBottom :: real

type_synonym rgba = "nat \<times> nat \<times> nat \<times> nat"

type_synonym pixel = "int \<times> int"

record raster =
  cwidth :: int
  cheight :: int
  pix :: "pixel \<Rightarrow> rgba"

text \<open>
  What the browser supplies to the layout: the label's measured box for a text, a font
  size and a rotation; the pixels \<open>fillText\<close> covers for a text, a font size, a rotation
  and a centre; the two results of \<open>Math.random\<close> (for the angle and for the first
  candidate); the spiral of \<open>Path.spiralPoints\<close> for the inner width and height; and
  \<open>Utils.spritePointToSprite\<close>. None of these is computed by the sources.
\<close>

record env =
  labelBox :: "string \<Rightarrow> number \<Rightarrow> real option \<Rightarrow> bbox"
  fillTextPixels :: "string \<Rightarrow> number \<Rightarrow> real option \<Rightarrow> real \<Rightarrow> real \<Rightarrow> pixel list"
  randomAngle :: real
  randomPoint :: real
  spiralPoints :: "real \<Rightarrow> real \<Rightarrow> (real \<times> real) list"
  spritePointToSprite :: "real \<times> real \<Rightarrow> real \<times> real"

text \<open>
  An accepted word as the raster saw it: the pixels the overlap test read for it and the
  pixels its glyph was stamped on. The list \<open>placed\<close> of a series is a record of the
  current pass, newest first; the source keeps no such list.
\<close>

record placement =
  samples :: "pixel list"
  stamp :: "pixel list"

record series =
  props :: properties
  innerWidth :: real
  innerHeight :: real
  containerRotation :: real
  dataItems :: "dataItem list"
  low :: real
  high :: real
  adjustedFont :: number
  points :: "(real \<times> real) list"
  currentIndex :: nat
  canvas :: raster
  processTimeout :: "nat option"
  timers :: "nat list"
  nextTimer :: nat
  invalid :: bool
  placed :: "placement list"

subsection \<open>The off-screen raster\<close>

definition white :: rgba where
  "white = (255, 255, 255, 255)"

definition blue :: rgba where
  "blue = (0, 0, 255, 255)"

definition transparent :: rgba where
  "transparent = (0, 0, 0, 0)"

definition inside :: "raster \<Rightarrow> pixel \<Rightarrow> bool" where
  "inside R q = (0 \<le> fst q \<and> fst q < cwidth R \<and> 0 \<le> snd q \<and> snd q < cheight R)"

text \<open>A pixel outside the canvas reads as transparent black.\<close>

definition read_pixel :: "raster \<Rightarrow> pixel \<Rightarrow> rgba" where
  "read_pixel R q = (if inside R q then pix R q else transparent)"

fun channel :: "nat \<Rightarrow> rgba \<Rightarrow> nat" where
  "channel k (r, g, b, a) = (if k = 0 then r else if k = 1 then g else if k = 2 then b else a)"

text \<open>
  \<open>getImageData(sx, sy, sw, sh).data\<close>: four bytes per pixel, the pixels row by row;
  byte \<open>i\<close> is channel \<open>i mod 4\<close> of pixel \<open>i div 4\<close>. A rectangle without area raises
  \<open>IndexSizeError\<close>; a negative extent names the rectangle from its other corner.
\<close>

definition rect_origin :: "real \<Rightarrow> real \<Rightarrow> int" where
  "rect_origin s e = (if to_long e < 0 then to_long s + to_long e else to_long s)"

definition rect_extent :: "real \<Rightarrow> nat" where
  "rect_extent e = nat \<bar>to_long e\<bar>"

definition data_pixel :: "real \<Rightarrow> real \<Rightarrow> real \<Rightarrow> real \<Rightarrow> nat \<Rightarrow> pixel" where
  "data_pixel sx sy sw sh k =
     (rect_origin sx sw + int (k mod rect_extent sw), rect_origin sy sh + int (k div rect_extent sw))"

definition getImageData :: "raster \<Rightarrow> real \<Rightarrow> real \<Rightarrow> real \<Rightarrow> real \<Rightarrow> error + nat list" where
  "getImageData R sx sy sw sh =
     (if to_long sw = 0 \<or> to_long sh = 0 then Inl IndexSizeError
      else Inr (map (\<lambda>i. channel (i mod 4) (read_pixel R (data_pixel sx sy sw sh (i div 4))))
                  [0 ..< 4 * (rect_extent sw * rect_extent sh)]))"

text \<open>\<open>fillText\<close> in blue: the covered pixels of the canvas become blue.\<close>

definition fillText :: "raster \<Rightarrow> pixel list \<Rightarrow> raster" where
  "fillText R qs = R\<lparr>pix := (\<lambda>q. if q \<in> set qs \<and> inside R q then blue else pix R q)\<rparr>"

text \<open>Setting the canvas size and \<open>fillRect(0, 0, w, h)\<close> in white.\<close>

definition fresh_canvas :: "real \<Rightarrow> real \<Rightarrow> raster" where
  "fresh_canvas w h = \<lparr>cwidth = to_long w, cheight = to_long h, pix = (\<lambda>q. white)\<rparr>"

subsection \<open>The overlap test\<close>

text \<open>
  \<open>for (let i = 0; i < pixel.length; i += Math.pow(2, this.accuracy))\<close> with its
  \<open>break\<close> at the first byte that is not 255: the result is the value of \<open>intersects\<close>
  after the loop.
\<close>

function scan_pixels :: "nat \<Rightarrow> nat list \<Rightarrow> nat \<Rightarrow> bool" where
  "scan_pixels acc pixel i =
     (if i < length pixel
      then (if pixel ! i \<noteq> 255 then True else scan_pixels acc pixel (i + 2 ^ acc))
      else False)"
  by pat_completeness auto
termination
  by (relation "measure (\<lambda>(acc, pixel, i). length pixel - i)")
     (auto intro!: diff_less_mono2)

subsection \<open>\<open>processItem\<close>\<close>

definition resolvedMin :: "series \<Rightarrow> number" where
  "resolvedMin S = relativeToValue (minFontSize (props S)) (min (innerHeight S) (innerWidth S))"

definition resolvedMax :: "series \<Rightarrow> number" where
  "resolvedMax S = relativeToValue (maxFontSize (props S)) (min (innerHeight S) (innerWidth S))"

text \<open>
  \<open>percent\<close> and \<open>fontSize\<close>. \<open>low\<close> and \<open>high\<close> are \<open>dataItem.values.value.low\<close> and
  \<open>.high\<close>, which the series keeps for the values of its items.
\<close>

definition itemPercent :: "series \<Rightarrow> dataItem \<Rightarrow> number" where
  "itemPercent S d =
     js_div (js_sub (to_double (itemValue d)) (to_double (low S))) (to_double (high S))"

definition itemFontSize :: "series \<Rightarrow> dataItem \<Rightarrow> number" where
  "itemFontSize S d =
     js_add (resolvedMin S)
       (js_mul (js_mul (js_sub (resolvedMax S) (resolvedMin S)) (itemPercent S d))
          (adjustedFont S))"

text \<open>An array read: \<open>undefined\<close> outside the array.\<close>

definition array_get :: "'a list \<Rightarrow> int \<Rightarrow> 'a option" where
  "array_get xs i = (if 0 \<le> i \<and> i < int (length xs) then Some (xs ! nat i) else None)"

definition itemAngle :: "series \<Rightarrow> env \<Rightarrow> dataItem \<Rightarrow> real option" where
  "itemAngle S E d =
     (if js_lt (js_div (js_sub (itemFontSize S d) (resolvedMin S))
                   (js_sub (resolvedMax S) (resolvedMin S)))
           (to_double (rotationThreshold (props S)))
      then array_get (angles (props S))
             (js_round (randomAngle E * (real (length (angles (props S))) - 1)))
      else Some 0)"

definition startIndex :: "series \<Rightarrow> env \<Rightarrow> int" where
  "startIndex S E = js_round (randomPoint E * real (length (points S)) * randomness (props S))"

text \<open>\<open>rect1\<close> as (x, y, width, height).\<close>

definition rect1 :: "bbox \<Rightarrow> real \<times> real \<Rightarrow> real \<times> real \<times> real \<times> real" where
  "rect1 B pt =
     (fst pt + maxLeft B - pixelMarginLeft B,
      snd pt + maxTop B - pixelMarginTop B,
      maxRight B - maxLeft B + pixelMarginLeft B + pixelMarginRight B,
      maxBottom B - maxTop B + pixelMarginTop B + pixelMarginBottom B)"

text \<open>
  What the loop does to \<open>_points\<close> at a rejected candidate \<open>p\<close> of a label whose text
  has \<open>n\<close> characters.
\<close>

definition prune_point ::
  "nat \<Rightarrow> real option \<Rightarrow> bbox \<Rightarrow> nat \<Rightarrow> (real \<times> real) list \<Rightarrow> (real \<times> real) list" where
  "prune_point n angle B p pts =
     (if 3 < n then
        (let pts1 = (if angle = Some 0
                     then (if maxRight B - maxLeft B < 60 then splice1 p pts else pts)
                     else pts)
         in if (case angle of None \<Rightarrow> False | Some a \<Rightarrow> \<bar>a\<bar> = 90)
            then (if maxBottom B - maxTop B < 50 then splice1 p pts1 else pts1)
            else pts1)
      else pts)"

datatype site = Exhausted | Found real real

lemma length_splice1: "length (splice1 i xs) \<le> length xs"
  by (simp add: splice1_def)

lemma length_prune_point: "length (prune_point n angle B p pts) \<le> length pts"
proof -
  have "length (splice1 p (splice1 p pts)) \<le> length pts"
    using length_splice1 [of p "splice1 p pts"] length_splice1 [of p pts] by linarith
  then show ?thesis
    by (simp add: prune_point_def Let_def length_splice1)
qed

text \<open>
  The bytes the overlap test reads for a label with box \<open>B\<close> at the candidate point
  \<open>pt\<close>: \<open>getImageData(rect1.x + w / 2, rect1.y + h / 2, rect1.width, rect1.height).data\<close>.
\<close>

definition site_data :: "series \<Rightarrow> bbox \<Rightarrow> real \<times> real \<Rightarrow> error + nat list" where
  "site_data S B pt =
     getImageData (canvas S)
       (fst (rect1 B pt) + innerWidth S / 2)
       (fst (snd (rect1 B pt)) + innerHeight S / 2)
       (fst (snd (snd (rect1 B pt))))
       (snd (snd (snd (rect1 B pt))))"

text \<open>
  The \<open>while (intersects)\<close> loop, from candidate \<open>p\<close>. It ends at the first candidate
  whose overlap test reads only 255 (\<open>Found\<close>, with that point), or past the last point
  (\<open>Exhausted\<close>, the early \<open>return\<close>). The series comes back with the points it pruned.
  A negative \<open>p\<close> reads \<open>undefined\<close> from \<open>_points\<close>, whose \<open>x\<close> is a \<open>TypeError\<close>.
\<close>

function place_loop ::
  "series \<Rightarrow> nat \<Rightarrow> real option \<Rightarrow> bbox \<Rightarrow> int \<Rightarrow> error + (site \<times> series)" where
  "place_loop S n angle B p =
     (if int (length (points S)) - 1 < p then Inr (Exhausted, S)
      else if p < 0 then Inl TypeError
      else
        (case site_data S B (points S ! nat p) of
           Inl e \<Rightarrow> Inl e
         | Inr pixel \<Rightarrow>
             if scan_pixels (accuracy (props S)) pixel 0
             then place_loop (S\<lparr>points := prune_point n angle B (nat p) (points S)\<rparr>)
                    n angle B (p + 5)
             else Inr (Found (fst (points S ! nat p)) (snd (points S ! nat p)), S)))"
  by pat_completeness auto
termination
proof (relation "measure (\<lambda>(S, n, angle, B, p). nat (int (length (points S)) - p))")
  show "wf (measure (\<lambda>(S, n, angle, B, p). nat (int (length (points S)) - p)))"
    by simp
next
  fix S :: series and n :: nat and angle :: "real option" and B :: bbox and p :: int
    and pixel :: "nat list"
  assume "\<not> int (length (points S)) - 1 < p"
  then have "p < int (length (points S))"
    by simp
  moreover have "length (prune_point n angle B (nat p) (points S)) \<le> length (points S)"
    by (rule length_prune_point)
  ultimately show
    "((S\<lparr>points := prune_point n angle B (nat p) (points S)\<rparr>, n, angle, B, p + 5),
      (S, n, angle, B, p))
     \<in> measure (\<lambda>(S, n, angle, B, p). nat (int (length (points S)) - p))"
    by simp
qed

text \<open>
  Modelled from the spec: \<open>BaseObject.setTimeout\<close> is not among the sources. "Word
  placement is staged one word per scheduled timer callback", with "timer disposal on
  re-validation": scheduling makes a new live timer and returns its disposer, which
  \<open>_processTimeout\<close> then holds; disposing takes the timer out of the live ones.
\<close>

definition setTimeout :: "series \<Rightarrow> series" where
  "setTimeout S =
     S\<lparr>processTimeout := Some (nextTimer S), timers := nextTimer S # timers S,
       nextTimer := Suc (nextTimer S)\<rparr>"

definition dispose :: "series \<Rightarrow> series" where
  "dispose S =
     (case processTimeout S of None \<Rightarrow> S | Some t \<Rightarrow> S\<lparr>timers := removeAll t (timers S)\<rparr>)"

text \<open>The pixels whose bytes the overlap test reads in a rectangle.\<close>

definition sample_pixels :: "nat \<Rightarrow> real \<Rightarrow> real \<Rightarrow> real \<Rightarrow> real \<Rightarrow> pixel list" where
  "sample_pixels acc sx sy sw sh =
     map (\<lambda>i. data_pixel sx sy sw sh (i div 4))
       (filter (\<lambda>i. i mod 2 ^ acc = 0) [0 ..< 4 * (rect_extent sw * rect_extent sh)])"

definition site_samples :: "series \<Rightarrow> bbox \<Rightarrow> real \<times> real \<Rightarrow> pixel list" where
  "site_samples S B pt =
     sample_pixels (accuracy (props S))
       (fst (rect1 B pt) + innerWidth S / 2)
       (fst (snd (rect1 B pt)) + innerHeight S / 2)
       (fst (snd (snd (rect1 B pt))))
       (snd (snd (snd (rect1 B pt))))"

text \<open>
  The search of \<open>processItem\<close> for the item \<open>d\<close>: the loop, started at the random
  candidate, with the label measured at the font size and angle just assigned.
\<close>

definition findSite :: "series \<Rightarrow> env \<Rightarrow> dataItem \<Rightarrow> error + (site \<times> series)" where
  "findSite S E d =
     place_loop S (length (currentText d)) (itemAngle S E d)
       (labelBox E (currentText d) (itemFontSize S d) (itemAngle S E d)) (startIndex S E)"

text \<open>
  The label of \<open>d\<close> after \<open>processItem\<close> has set its font size and rotation and shown
  it, before the search.
\<close>

definition labelled :: "series \<Rightarrow> env \<Rightarrow> dataItem \<Rightarrow> dataItem" where
  "labelled S E d = d\<lparr>fontSize := itemFontSize S d, rotation := itemAngle S E d, shown := True\<rparr>"

text \<open>
  The early \<open>return\<close> of the loop: \<open>this._adjustedFont -= 0.1\<close>, a subtraction of
  doubles, and \<open>invalidate()\<close>, which marks the series. The label is not moved, nothing
  is stamped, no callback scheduled.
\<close>

definition giveUp :: "series \<Rightarrow> dataItem \<Rightarrow> series" where
  "giveUp S1 d1 =
     S1\<lparr>dataItems := (dataItems S1)[currentIndex S1 := d1],
        adjustedFont := js_sub (adjustedFont S1) (to_double (1 / 10)),
        invalid := True\<rparr>"

text \<open>
  After the loop has found the point (x, y): the label ends there (the value its
  animation runs to) and the glyph is stamped on the raster, centred at
  \<open>(x + w / 2, y + h / 2)\<close>.
\<close>

definition stampWord :: "series \<Rightarrow> env \<Rightarrow> dataItem \<Rightarrow> real \<Rightarrow> real \<Rightarrow> series" where
  "stampWord S1 E d1 x y =
     (let qs = filter (inside (canvas S1))
                 (fillTextPixels E (currentText d1) (fontSize d1) (rotation d1)
                    (x + innerWidth S1 / 2) (y + innerHeight S1 / 2));
          B = labelBox E (currentText d1) (fontSize d1) (rotation d1)
      in S1\<lparr>dataItems := (dataItems S1)[currentIndex S1 := d1\<lparr>pixelX := x, pixelY := y\<rparr>],
            canvas := fillText (canvas S1) qs,
            placed := \<lparr>samples = site_samples S1 B (x, y), stamp = qs\<rparr> # placed S1\<rparr>)"

text \<open>\<open>if (this._currentIndex < this.dataItems.length - 1)\<close>, the last statement.\<close>

definition scheduleNext :: "series \<Rightarrow> series" where
  "scheduleNext S2 =
     (if int (currentIndex S2) < int (length (dataItems S2)) - 1 then setTimeout S2 else S2)"

text \<open>
  \<open>processItem\<close> for the data item at \<open>_currentIndex\<close> (\<open>getIndex\<close> gives \<open>undefined\<close>
  past the end, and reading its label is a \<open>TypeError\<close>).
\<close>

definition processItem :: "series \<Rightarrow> env \<Rightarrow> error + series" where
  "processItem S E =
     (if currentIndex S < length (dataItems S) then
        (case findSite S E (dataItems S ! currentIndex S) of
           Inl e \<Rightarrow> Inl e
         | Inr (Exhausted, S1) \<Rightarrow> Inr (giveUp S1 (labelled S E (dataItems S ! currentIndex S)))
         | Inr (Found x y, S1) \<Rightarrow>
             Inr (scheduleNext (stampWord S1 E (labelled S E (dataItems S ! currentIndex S)) x y)))
      else Inl TypeError)"

text \<open>The callback of the timer \<open>t\<close>: the timer is spent, the index advances.\<close>

definition timerCallback :: "series \<Rightarrow> env \<Rightarrow> nat \<Rightarrow> error + series" where
  "timerCallback S E t =
     processItem (S\<lparr>timers := removeAll t (timers S), currentIndex := Suc (currentIndex S)\<rparr>) E"

subsection \<open>\<open>validate\<close>\<close>

text \<open>
  The loop over \<open>_points\<close> from the last index down; the first argument is \<open>i + 1\<close>.
\<close>

fun clip_points ::
  "real \<Rightarrow> real \<Rightarrow> real \<Rightarrow> (real \<times> real \<Rightarrow> real \<times> real) \<Rightarrow> nat \<Rightarrow> (real \<times> real) list
   \<Rightarrow> (real \<times> real) list" where
  "clip_points w h rot tr 0 pts = pts"
| "clip_points w h rot tr (Suc i) pts =
     (if fst (pts ! i) < - w / 2 \<or> w / 2 < fst (pts ! i)
         \<or> snd (pts ! i) < - h / 2 \<or> h / 2 < snd (pts ! i)
      then clip_points w h rot tr i (splice1 i pts)
      else if rot \<noteq> 0
      then clip_points w h rot tr i (pts[i := tr (fst (pts ! i) + w / 2, snd (pts ! i) + h / 2)])
      else clip_points w h rot tr i pts)"

text \<open>
  \<open>validate\<close>: the index is reset, the data items are sorted, the pending timer is
  disposed, and for a positive inner size the canvas is cleared, the candidate points
  are computed and the first item is processed. The validation of the mask sprite does
  not touch the layout state and is left out; the flag of \<open>invalidate()\<close> is cleared by
  the inherited \<open>validate\<close>.
\<close>

definition validate :: "series \<Rightarrow> env \<Rightarrow> error + series" where
  "validate S E =
     (let S1 = dispose (S\<lparr>invalid := False, currentIndex := 0,
                           dataItems := sort_cmp (compare_desc itemValue) (dataItems S)\<rparr>);
          w = innerWidth S1;
          h = innerHeight S1
      in if 0 < w \<and> 0 < h
         then processItem
                (S1\<lparr>canvas := fresh_canvas w h,
                    points := clip_points w h (containerRotation S1) (spritePointToSprite E)
                                (length (spiralPoints E w h)) (spiralPoints E w h),
                    placed := []\<rparr>) E
         else Inr S1)"

text \<open>
  The states a series goes through: from a series with no timer, by validations and by
  callbacks of live timers, each with what the browser supplies at that moment.
\<close>

inductive reachable :: "series \<Rightarrow> bool" where
  start: "timers S = [] \<Longrightarrow> processTimeout S = None \<Longrightarrow> placed S = [] \<Longrightarrow> reachable S"
| validated: "reachable S \<Longrightarrow> validate S E = Inr S' \<Longrightarrow> reachable S'"
| fired: "reachable S \<Longrightarrow> t \<in> set (timers S) \<Longrightarrow> timerCallback S E t = Inr S' \<Longrightarrow> reachable S'"

text \<open>At most one timer is live, and it is the one \<open>_processTimeout\<close> holds.\<close>

definition one_chain :: "series \<Rightarrow> bool" where
  "one_chain S = (timers S = [] \<or> (\<exists>t. timers S = [t] \<and> processTimeout S = Some t))"

text \<open>
  A placed word \<open>a\<close> hits a placed word \<open>b\<close> when one of the pixels the overlap test read
  for \<open>a\<close> is a pixel the glyph of \<open>b\<close> was stamped on. In a list of placements, newest
  first: \<open>all_clear\<close> says that no word hits another one, whichever was placed first;
  \<open>later_clear\<close> says that no word hits a word placed before it; \<open>stamped\<close> says that
  the pixels of every glyph are on the canvas and blue.
\<close>

definition hits :: "placement \<Rightarrow> placement \<Rightarrow> bool" where
  "hits a b = list_ex (\<lambda>q. q \<in> set (stamp b)) (samples a)"

fun all_clear :: "placement list \<Rightarrow> bool" where
  "all_clear [] = True"
| "all_clear (n # older) = (list_all (\<lambda>e. \<not> hits n e \<and> \<not> hits e n) older \<and> all_clear older)"

fun later_clear :: "placement list \<Rightarrow> bool" where
  "later_clear [] = True"
| "later_clear (n # older) = (list_all (\<lambda>e. \<not> hits n e) older \<and> later_clear older)"

definition stamped :: "series \<Rightarrow> bool" where
  "stamped S =
     list_all (\<lambda>e. list_all (\<lambda>q. inside (canvas S) q \<and> pix (canvas S) q = blue) (stamp e))
       (placed S)"

subsection \<open>A small series\<close>

text \<open>
  Two words on a canvas of 20 by 20 pixels, each label a box of 4 by 4 pixels around its
  centre whose glyph covers the top left pixel of the box, and a spiral of six points.
  With accuracy 2 the overlap test reads the red byte of every pixel of a box.
\<close>

definition example_box :: bbox where
  "example_box =
     \<lparr>maxLeft = - 2, maxRight = 2, maxTop = - 2, maxBottom = 2, pixelMarginLeft = 0,
      pixelMarginRight = 0, pixelMarginTop = 0, pixelMarginBottom = 0\<rparr>"

definition example_env :: env where
  "example_env =
     \<lparr>labelBox = (\<lambda>t fs a. example_box),
      fillTextPixels = (\<lambda>t fs a cx cy. [(to_long cx - 2, to_long cy - 2)]),
      randomAngle = 0, randomPoint = 0,
      spiralPoints = (\<lambda>w h. [(0, 0), (9, 9), (9, 9), (9, 9), (9, 9), (1, 1)]),
      spritePointToSprite = (\<lambda>pt. pt)\<rparr>"

definition example_item :: "string \<Rightarrow> real \<Rightarrow> dataItem" where
  "example_item t v =
     \<lparr>currentText = t, itemValue = v, fontSize = Num 0, rotation = Some 0, pixelX = 0,
      pixelY = 0, shown = False\<rparr>"

definition example_series :: series where
  "example_series =
     \<lparr>props = default_properties\<lparr>accuracy := 2\<rparr>, innerWidth = 20, innerHeight = 20,
      containerRotation = 0, dataItems = [example_item ''b'' 1, example_item ''a'' 2],
      low = 1, high = 2, adjustedFont = Num 1, points = [], currentIndex = 0,
      canvas = fresh_canvas 0 0, processTimeout = None, timers = [], nextTimer = 0,
      invalid = True, placed = []\<rparr>"

text \<open>
  The same series with absolute font sizes from 10 to 50 and the values 4 and 2, so that
  the lowest value of the series is 2 and the highest 4.
\<close>

definition interpolation_series :: series where
  "interpolation_series =
     example_series
       \<lparr>props := (props example_series)\<lparr>minFontSize := Number 10, maxFontSize := Number 50\<rparr>,
        dataItems := [example_item ''a'' 4, example_item ''b'' 2], low := 2, high := 4\<rparr>"

text \<open>A browser whose \<open>Math.random\<close> gives 0.9 for the angle.\<close>

definition rotating_env :: env where
  "rotating_env = example_env\<lparr>randomAngle := 9 / 10\<rparr>"





text \<open>The data item \<open>getIndex(this._currentIndex)\<close> (when the index is in range).\<close>

definition currentItem :: "series \<Rightarrow> dataItem" where
  "currentItem S = dataItems S ! currentIndex S"

text \<open>
  The small series after its validation (the first word is placed and a callback is
  scheduled), and after that callback (the second word is placed).
\<close>

definition example_first :: series where
  "example_first =
     (case validate example_series example_env of Inr S \<Rightarrow> S | Inl e \<Rightarrow> example_series)"

definition example_second :: series where
  "example_second =
     (case timerCallback example_first example_env 0 of Inr S \<Rightarrow> S | Inl e \<Rightarrow> example_first)"

section \<open>Rounding dates: \<open>Time.round\<close>\<close>

text \<open>
  A \<open>Date\<close> object holds a time value: a whole number of milliseconds since the epoch,
  at most 8.64e15 in magnitude, or NaN (\<open>None\<close>, an invalid date). Its UTC getters and
  setters are not among the sources; they are written here from the abstract
  operations of ECMAScript (\<open>Day\<close>, \<open>TimeWithinDay\<close>, \<open>DayFromYear\<close>, \<open>YearFromTime\<close>,
  \<open>MonthFromTime\<close>, \<open>DateFromTime\<close>, \<open>WeekDay\<close>, \<open>MakeTime\<close>, \<open>MakeDay\<close>, \<open>MakeDate\<close>,
  \<open>TimeClip\<close>). A getter of an invalid date gives NaN, and a setter that is given NaN
  makes the date invalid.
\<close>

datatype TimeUnit = Millisecond | Second | Minute | Hour | Day | Week | Month | Year

type_synonym timeval = "int option"

definition msPerDay :: int where
  "msPerDay = 86400000"

definition DayFromTime :: "int \<Rightarrow> int" where
  "DayFromTime t = t div msPerDay"

definition TimeWithinDay :: "int \<Rightarrow> int" where
  "TimeWithinDay t = t mod msPerDay"

definition DaysInYear :: "int \<Rightarrow> int" where
  "DaysInYear y =
     (if y mod 4 \<noteq> 0 then 365 else if y mod 100 \<noteq> 0 then 366
      else if y mod 400 \<noteq> 0 then 365 else 366)"

definition DayFromYear :: "int \<Rightarrow> int" where
  "DayFromYear y =
     365 * (y - 1970) + (y - 1969) div 4 - (y - 1901) div 100 + (y - 1601) div 400"

lemma div_step_4: "(x::int) div 4 \<le> (x + 1) div 4"
  by linarith

lemma div_step_100: "((x::int) + 1) div 100 \<le> x div 100 + 1"
  by linarith

lemma div_step_400: "(x::int) div 400 \<le> (x + 1) div 400"
  by linarith

lemma DayFromYear_Suc:
  "DayFromYear (y + 1)
   = 365 * (y - 1970) + 365 + (y - 1968) div 4 - (y - 1900) div 100 + (y - 1600) div 400"
  by (simp add: DayFromYear_def)

lemma DayFromYear_less: "DayFromYear y < DayFromYear (y + 1)"
proof -
  define a b c where "a = (y - 1969) div 4" and "b = (y - 1901) div 100"
    and "c = (y - 1601) div 400"
  define a' b' c' where "a' = (y - 1968) div 4" and "b' = (y - 1900) div 100"
    and "c' = (y - 1600) div 400"
  define z where "z = 365 * (y - 1970)"
  have "a \<le> a'"
    using div_step_4 [of "y - 1969"] by (simp add: a_def a'_def)
  moreover have "b' \<le> b + 1"
    using div_step_100 [of "y - 1901"] by (simp add: b_def b'_def)
  moreover have "c \<le> c'"
    using div_step_400 [of "y - 1601"] by (simp add: c_def c'_def)
  ultimately have "z + a - b + c < z + 365 + a' - b' + c'"
    by linarith
  then show ?thesis
    unfolding DayFromYear_Suc unfolding DayFromYear_def a_def b_def c_def a'_def b'_def c'_def z_def .
qed

text \<open>
  \<open>YearFromTime\<close> is the largest year whose first day is not after the day of the time
  value. The search goes up from a year that is early enough.
\<close>

function year_search :: "int \<Rightarrow> int \<Rightarrow> int" where
  "year_search d y = (if DayFromYear (y + 1) \<le> d then year_search d (y + 1) else y)"
  by pat_completeness auto
termination
proof (relation "measure (\<lambda>(d, y). nat (d + 1 - DayFromYear (y + 1)))")
  show "wf (measure (\<lambda>(d, y). nat (d + 1 - DayFromYear (y + 1))))"
    by simp
next
  fix d y :: int
  assume "DayFromYear (y + 1) \<le> d"
  with DayFromYear_less [of "y + 1"]
  show "((d, y + 1), (d, y)) \<in> measure (\<lambda>(d, y). nat (d + 1 - DayFromYear (y + 1)))"
    by simp
qed

definition YearFromDay :: "int \<Rightarrow> int" where
  "YearFromDay d = year_search d (1969 + (if 0 \<le> d then d div 366 else d div 365))"

definition YearFromTime :: "int \<Rightarrow> int" where
  "YearFromTime t = YearFromDay (DayFromTime t)"

definition InLeapYear :: "int \<Rightarrow> int" where
  "InLeapYear t = (if DaysInYear (YearFromTime t) = 365 then 0 else 1)"

definition DayWithinYear :: "int \<Rightarrow> int" where
  "DayWithinYear t = DayFromTime t - DayFromYear (YearFromTime t)"

text \<open>The day of the year on which month \<open>m\<close> (0 to 11) starts, \<open>l\<close> being 1 in a leap year.\<close>

definition month_start :: "int \<Rightarrow> int \<Rightarrow> int" where
  "month_start m l =
     (if m = 0 then 0 else if m = 1 then 31 else if m = 2 then 59 + l
      else if m = 3 then 90 + l else if m = 4 then 120 + l else if m = 5 then 151 + l
      else if m = 6 then 181 + l else if m = 7 then 212 + l else if m = 8 then 243 + l
      else if m = 9 then 273 + l else if m = 10 then 304 + l else 334 + l)"

definition month_of_day :: "int \<Rightarrow> int \<Rightarrow> int" where
  "month_of_day n l =
     (if n < 31 then 0 else if n < 59 + l then 1 else if n < 90 + l then 2
      else if n < 120 + l then 3 else if n < 151 + l then 4 else if n < 181 + l then 5
      else if n < 212 + l then 6 else if n < 243 + l then 7 else if n < 273 + l then 8
      else if n < 304 + l then 9 else if n < 334 + l then 10 else 11)"

definition MonthFromTime :: "int \<Rightarrow> int" where
  "MonthFromTime t = month_of_day (DayWithinYear t) (InLeapYear t)"

definition DateFromTime :: "int \<Rightarrow> int" where
  "DateFromTime t = DayWithinYear t - month_start (MonthFromTime t) (InLeapYear t) + 1"

definition WeekDay :: "int \<Rightarrow> int" where
  "WeekDay t = (DayFromTime t + 4) mod 7"

definition HourFromTime :: "int \<Rightarrow> int" where
  "HourFromTime t = (t div 3600000) mod 24"

definition MinFromTime :: "int \<Rightarrow> int" where
  "MinFromTime t = (t div 60000) mod 60"

definition SecFromTime :: "int \<Rightarrow> int" where
  "SecFromTime t = (t div 1000) mod 60"

definition msFromTime :: "int \<Rightarrow> int" where
  "msFromTime t = t mod 1000"

definition MakeTime :: "int \<Rightarrow> int \<Rightarrow> int \<Rightarrow> int \<Rightarrow> int" where
  "MakeTime h m s ms = h * 3600000 + m * 60000 + s * 1000 + ms"

definition MakeDay :: "int \<Rightarrow> int \<Rightarrow> int \<Rightarrow> int" where
  "MakeDay y m dt =
     DayFromYear (y + m div 12)
     + month_start (m mod 12) (if DaysInYear (y + m div 12) = 365 then 0 else 1) + dt - 1"

definition MakeDate :: "int \<Rightarrow> int \<Rightarrow> int" where
  "MakeDate d t = d * msPerDay + t"

definition TimeClip :: "int \<Rightarrow> timeval" where
  "TimeClip t = (if 8640000000000000 < \<bar>t\<bar> then None else Some t)"

text \<open>
  The heap of \<open>Date\<close> objects: a reference is a natural number, and a setter changes the
  time value stored at the reference it is called on.
\<close>

type_synonym dates = "nat \<rightharpoonup> timeval"

text \<open>The time value of the object at \<open>r\<close>.\<close>

definition thisTime :: "dates \<Rightarrow> nat \<Rightarrow> timeval" where
  "thisTime H r = (case H r of None \<Rightarrow> None | Some t \<Rightarrow> t)"

definition getUTCFullYear :: "dates \<Rightarrow> nat \<Rightarrow> int option" where
  "getUTCFullYear H r = map_option YearFromTime (thisTime H r)"

definition getUTCMonth :: "dates \<Rightarrow> nat \<Rightarrow> int option" where
  "getUTCMonth H r = map_option MonthFromTime (thisTime H r)"

definition getUTCDate :: "dates \<Rightarrow> nat \<Rightarrow> int option" where
  "getUTCDate H r = map_option DateFromTime (thisTime H r)"

definition getUTCDay :: "dates \<Rightarrow> nat \<Rightarrow> int option" where
  "getUTCDay H r = map_option WeekDay (thisTime H r)"

definition getUTCHours :: "dates \<Rightarrow> nat \<Rightarrow> int option" where
  "getUTCHours H r = map_option HourFromTime (thisTime H r)"

definition getUTCMinutes :: "dates \<Rightarrow> nat \<Rightarrow> int option" where
  "getUTCMinutes H r = map_option MinFromTime (thisTime H r)"

definition getUTCSeconds :: "dates \<Rightarrow> nat \<Rightarrow> int option" where
  "getUTCSeconds H r = map_option SecFromTime (thisTime H r)"

definition getUTCMilliseconds :: "dates \<Rightarrow> nat \<Rightarrow> int option" where
  "getUTCMilliseconds H r = map_option msFromTime (thisTime H r)"

definition setUTCDate :: "dates \<Rightarrow> nat \<Rightarrow> int option \<Rightarrow> dates" where
  "setUTCDate H r dt =
     H(r \<mapsto> (case (thisTime H r, dt) of
                (Some t, Some d) \<Rightarrow>
                  TimeClip (MakeDate (MakeDay (YearFromTime t) (MonthFromTime t) d) (TimeWithinDay t))
              | _ \<Rightarrow> None))"

definition setUTCHours :: "dates \<Rightarrow> nat \<Rightarrow> int option \<Rightarrow> int \<Rightarrow> int \<Rightarrow> int \<Rightarrow> dates" where
  "setUTCHours H r h m s ms =
     H(r \<mapsto> (case (thisTime H r, h) of
                (Some t, Some h') \<Rightarrow> TimeClip (MakeDate (DayFromTime t) (MakeTime h' m s ms))
              | _ \<Rightarrow> None))"

definition setUTCMinutes :: "dates \<Rightarrow> nat \<Rightarrow> int option \<Rightarrow> int \<Rightarrow> int \<Rightarrow> dates" where
  "setUTCMinutes H r m s ms =
     H(r \<mapsto> (case (thisTime H r, m) of
                (Some t, Some m') \<Rightarrow>
                  TimeClip (MakeDate (DayFromTime t) (MakeTime (HourFromTime t) m' s ms))
              | _ \<Rightarrow> None))"

definition setUTCSeconds :: "dates \<Rightarrow> nat \<Rightarrow> int option \<Rightarrow> int \<Rightarrow> dates" where
  "setUTCSeconds H r s ms =
     H(r \<mapsto> (case (thisTime H r, s) of
                (Some t, Some s') \<Rightarrow>
                  TimeClip (MakeDate (DayFromTime t)
                              (MakeTime (HourFromTime t) (MinFromTime t) s' ms))
              | _ \<Rightarrow> None))"

definition setUTCMilliseconds :: "dates \<Rightarrow> nat \<Rightarrow> int option \<Rightarrow> dates" where
  "setUTCMilliseconds H r ms =
     H(r \<mapsto> (case (thisTime H r, ms) of
                (Some t, Some ms') \<Rightarrow>
                  TimeClip (MakeDate (DayFromTime t)
                              (MakeTime (HourFromTime t) (MinFromTime t) (SecFromTime t) ms'))
              | _ \<Rightarrow> None))"

definition setUTCMonth :: "dates \<Rightarrow> nat \<Rightarrow> int option \<Rightarrow> int \<Rightarrow> dates" where
  "setUTCMonth H r m dt =
     H(r \<mapsto> (case (thisTime H r, m) of
                (Some t, Some m') \<Rightarrow>
                  TimeClip (MakeDate (MakeDay (YearFromTime t) m' dt) (TimeWithinDay t))
              | _ \<Rightarrow> None))"

text \<open>\<open>setUTCFullYear\<close> takes the time of day of an invalid date as 0.\<close>

definition setUTCFullYear :: "dates \<Rightarrow> nat \<Rightarrow> int option \<Rightarrow> int \<Rightarrow> int \<Rightarrow> dates" where
  "setUTCFullYear H r y m dt =
     H(r \<mapsto> (case y of
                None \<Rightarrow> None
              | Some y' \<Rightarrow>
                  TimeClip (MakeDate (MakeDay y' m dt)
                              (TimeWithinDay (case thisTime H r of None \<Rightarrow> 0 | Some t \<Rightarrow> t)))))"

text \<open>
  \<open>Math.floor(x / count) * count\<close>, on a getter's result; with \<open>count = 0\<close> the
  quotient is NaN or an infinity and the product is NaN.
\<close>

definition floor_to :: "int \<Rightarrow> int option \<Rightarrow> int option" where
  "floor_to n x = (if n = 0 then None else map_option (\<lambda>v. (v div n) * n) x)"

text \<open>
  The script target the sources are compiled for is not among them. It decides what a
  \<open>let\<close> is at run time: a block-scoped binding that cannot be touched before its
  declaration has run (ES2015 and later), or a \<open>var\<close> of the function (ES5).
\<close>

datatype target = ES5 | ES2015

text \<open>
  \<open>round(date, unit, count, firstDateOfWeek)\<close>: the heap after the call and the reference
  the call returns, or the exception it throws. \<open>count\<close> is a number; \<open>firstDateOfWeek\<close>
  may be left out (\<open>None\<close>).

  All cases of the \<open>switch\<close> share one block. The case \<open>"minute"\<close> assigns to
  \<open>milliseconds\<close>, which \<open>let\<close> declares in the case \<open>"millisecond"\<close>: entered at
  \<open>"minute"\<close>, the declaration has not run, and with block-scoped bindings the
  assignment throws a \<open>ReferenceError\<close> (after the getters, before any setter); with
  \<open>var\<close> it stores a value nobody reads.
\<close>

definition round_date ::
  "target \<Rightarrow> dates \<Rightarrow> nat \<Rightarrow> TimeUnit \<Rightarrow> int \<Rightarrow> int option \<Rightarrow> error + dates \<times> nat" where
  "round_date tg H date unit n firstDateOfWeek =
     (case unit of
        Day \<Rightarrow>
          (let day = getUTCDate H date;
               day = (if 1 < n then floor_to n day else day);
               H = setUTCDate H date day;
               H = setUTCHours H date (Some 0) 0 0 0
           in Inr (H, date))
      | Second \<Rightarrow>
          (let seconds = getUTCSeconds H date;
               seconds = (if 1 < n then floor_to n seconds else seconds);
               H = setUTCSeconds H date seconds 0
           in Inr (H, date))
      | Millisecond \<Rightarrow>
          (if n = 1 then Inr (H, date)
           else
             (let milliseconds = getUTCMilliseconds H date;
                  milliseconds = floor_to n milliseconds;
                  H = setUTCMilliseconds H date milliseconds
              in Inr (H, date)))
      | Hour \<Rightarrow>
          (let hours = getUTCHours H date;
               hours = (if 1 < n then floor_to n hours else hours);
               H = setUTCHours H date hours 0 0 0
           in Inr (H, date))
      | Minute \<Rightarrow>
          (let minutes = getUTCMinutes H date;
               milliseconds = getUTCMilliseconds H date
           in if tg = ES2015 then Inl ReferenceError
              else
                (let minutes = (if 1 < n then floor_to n minutes else minutes);
                     H = setUTCMinutes H date minutes 0 0
                 in Inr (H, date)))
      | Month \<Rightarrow>
          (let month = getUTCMonth H date;
               month = (if 1 < n then floor_to n month else month);
               H = setUTCMonth H date month 1;
               H = setUTCHours H date (Some 0) 0 0 0
           in Inr (H, date))
      | Year \<Rightarrow>
          (let year = getUTCFullYear H date;
               year = (if 1 < n then floor_to n year else year);
               H = setUTCFullYear H date year 0 1;
               H = setUTCHours H date (Some 0) 0 0 0
           in Inr (H, date))
      | Week \<Rightarrow>
          (let wday = getUTCDate H date;
               weekDay = getUTCDay H date;
               first = (case firstDateOfWeek of None \<Rightarrow> 1 | Some f \<Rightarrow> f);
               wday = (case (wday, weekDay) of
                         (Some d, Some w) \<Rightarrow>
                           Some (if first \<le> w then d - w + first else d - (7 + w) + first)
                       | _ \<Rightarrow> None);
               H = setUTCDate H date wday;
               H = setUTCHours H date (Some 0) 0 0 0
           in Inr (H, date)))"

subsection \<open>The time value a rounding leaves\<close>

text \<open>
  Closed forms of what the setter calls of \<open>round\<close> compute for \<open>count = 1\<close>; the
  lemmas on \<open>round_date\<close> below derive them from the setters.
\<close>

definition floor_ms :: "int \<Rightarrow> timeval \<Rightarrow> timeval" where
  "floor_ms k t = (case t of None \<Rightarrow> None | Some v \<Rightarrow> TimeClip (v - v mod k))"

definition same_date :: "timeval \<Rightarrow> timeval" where
  "same_date t = (case t of None \<Rightarrow> None | Some v \<Rightarrow> TimeClip v)"

definition week_start :: "timeval \<Rightarrow> timeval" where
  "week_start t =
     (case t of
        None \<Rightarrow> None
      | Some v \<Rightarrow>
          TimeClip (v - (if 1 \<le> WeekDay v then WeekDay v - 1 else WeekDay v + 6) * msPerDay))"

definition month_first :: "timeval \<Rightarrow> timeval" where
  "month_first t =
     (case t of
        None \<Rightarrow> None
      | Some v \<Rightarrow>
          TimeClip ((DayFromYear (YearFromTime v) + month_start (MonthFromTime v) (InLeapYear v))
                      * msPerDay + TimeWithinDay v))"

definition year_first :: "timeval \<Rightarrow> timeval" where
  "year_first t =
     (case t of
        None \<Rightarrow> None
      | Some v \<Rightarrow> TimeClip (DayFromYear (YearFromTime v) * msPerDay + TimeWithinDay v))"

section \<open>Properties of \<open>getWords\<close>\<close>

lemma scan_tokens_empty:
  "(scan_tokens cur s = []) = (cur = [] \<and> list_all (\<lambda>c. \<not> reg_class c) s)"
  by (induction s arbitrary: cur) auto

lemma match_reg_None: "(match_reg s = None) = list_all (\<lambda>c. \<not> reg_class c) s"
proof (cases "scan_tokens [] s")
  case Nil
  then show ?thesis
    using scan_tokens_empty [of "[]" s] by (simp add: match_reg_def)
next
  case (Cons t ts)
  then show ?thesis
    using scan_tokens_empty [of "[]" s] by (simp add: match_reg_def)
qed

text \<open>
  Claim C9. \<open>getWords\<close> returns \<open>undefined\<close> for the empty (falsy) string; it returns the
  empty array for a non-empty input in which no character belongs to the class of the
  regular expression; and whenever it returns a populated array the input holds a
  character of the class, that is, at least one token matched.
\<close>

theorem getWords_undefined_empty_populated:
  "getWords P [] = None
   \<and> (input \<noteq> [] \<and> list_all (\<lambda>c. \<not> reg_class c) input \<longrightarrow> getWords P input = Some [])
   \<and> (getWords P input = Some ws \<and> ws \<noteq> [] \<longrightarrow> list_ex reg_class input)"
proof -
  have a: "getWords P [] = None"
    by (simp add: getWords_def)
  have b: "getWords P input = Some []"
    if "input \<noteq> []" "list_all (\<lambda>c. \<not> reg_class c) input"
    using that by (simp add: getWords_def match_reg_None [symmetric])
  have c: "list_ex reg_class input" if "getWords P input = Some ws" "ws \<noteq> []"
  proof (rule ccontr)
    assume "\<not> list_ex reg_class input"
    then have n: "list_all (\<lambda>c. \<not> reg_class c) input"
      by (simp add: list_all_iff list_ex_iff)
    have "input \<noteq> []"
      using that(1) by (auto simp: getWords_def)
    then have "getWords P input = Some []"
      using n by (rule b)
    then show False
      using that by simp
  qed
  show ?thesis
    using a b c by blast
qed

theorem getWords_undefined_empty_populated_witness:
  "getWords default_properties [] = None
   \<and> ''?! '' \<noteq> [] \<and> list_all (\<lambda>c. \<not> reg_class c) ''?! ''
   \<and> getWords default_properties ''?! '' = Some []
   \<and> getWords default_properties ''hi'' = Some [\<lparr>word = ''hi'', val = 1\<rparr>]
   \<and> list_ex reg_class ''hi''"
proof -
  have h1: "''?! '' \<noteq> [] \<and> list_all (\<lambda>c. \<not> reg_class c) ''?! ''"
    by code_simp
  have h2: "getWords default_properties ''hi'' = Some [\<lparr>word = ''hi'', val = 1\<rparr>]"
    by code_simp
  have h3: "[\<lparr>word = ''hi'', val = 1\<rparr>] \<noteq> []"
    by simp
  show ?thesis
    using getWords_undefined_empty_populated [of default_properties "''?! ''"]
      getWords_undefined_empty_populated
        [of default_properties "''hi''" "[\<lparr>word = ''hi'', val = 1\<rparr>]"]
      h1 h2 h3
    by blast
qed

text \<open>
  Claim C8, at a failing input. With \<open>minValue = 2\<close> and \<open>minWordLength = 2\<close> the text
  \<open>bb bb a\<close> gives the tokens \<open>bb\<close>, \<open>bb\<close>, \<open>a\<close> and the counted entries \<open>a\<close> (once) and
  \<open>bb\<close> (twice). The entry \<open>bb\<close> passes every filter, yet \<open>getWords\<close> returns the empty
  array: the entry \<open>a\<close> fails two tests, each test splices index 0, and the second
  splice removes \<open>bb\<close>.
\<close>

theorem getWords_filter_splices_twice:
  "match_reg ''bb bb a'' = Some [''bb'', ''bb'', ''a'']
   \<and> count_tokens [''bb'', ''bb'', ''a''] = [\<lparr>word = ''a'', val = 1\<rparr>, \<lparr>word = ''bb'', val = 2\<rparr>]
   \<and> \<not> below 2 (Some 2) \<and> \<not> length ''bb'' < 2
   \<and> getWords (default_properties\<lparr>minValue := Some 2, minWordLength := 2\<rparr>) ''bb bb a''
       = Some []"
  by code_simp

subsection \<open>Sorting\<close>






section \<open>Properties of the layout\<close>

declare place_loop.simps [simp del]

declare scan_pixels.simps [simp del]

subsection \<open>What the search and \<open>processItem\<close> leave alone\<close>

lemma place_loop_frame:
  "place_loop S n angle B p = Inr (r, S1) \<Longrightarrow> S1 = S\<lparr>points := points S1\<rparr>"
proof (induction S n angle B p rule: place_loop.induct)
  case (1 S n angle B p)
  from "1.prems" show ?case
    by (subst (asm) place_loop.simps) (auto split: if_splits sum.splits dest!: "1.IH")
qed

lemma findSite_frame: "findSite S E d = Inr (r, S1) \<Longrightarrow> S1 = S\<lparr>points := points S1\<rparr>"
  unfolding findSite_def by (rule place_loop_frame)

lemma findSite_points:
  assumes "findSite S E d = Inr (r, S1)"
  obtains pts where "S1 = S\<lparr>points := pts\<rparr>"
  using findSite_frame [OF assms] by blast

text \<open>The two ways \<open>processItem\<close> returns.\<close>

lemma processItem_cases:
  assumes "processItem S E = Inr S'"
  obtains (exhausted) pts where
      "findSite S E (dataItems S ! currentIndex S) = Inr (Exhausted, S\<lparr>points := pts\<rparr>)"
      "S' = giveUp (S\<lparr>points := pts\<rparr>) (labelled S E (dataItems S ! currentIndex S))"
    | (found) pts x y where
      "findSite S E (dataItems S ! currentIndex S) = Inr (Found x y, S\<lparr>points := pts\<rparr>)"
      "S' = scheduleNext
              (stampWord (S\<lparr>points := pts\<rparr>) E (labelled S E (dataItems S ! currentIndex S)) x y)"
proof -
  from assms have i: "currentIndex S < length (dataItems S)"
    by (auto simp: processItem_def split: if_splits)
  from assms i obtain r S1 where f: "findSite S E (dataItems S ! currentIndex S) = Inr (r, S1)"
    by (auto simp: processItem_def split: sum.splits)
  from findSite_points [OF f] obtain pts where p: "S1 = S\<lparr>points := pts\<rparr>"
    by blast
  show thesis
  proof (cases r)
    case Exhausted
    with assms i f p show thesis
      by (intro exhausted [of pts]) (auto simp: processItem_def)
  next
    case (Found x y)
    with assms i f p show thesis
      by (intro found [of x y pts]) (auto simp: processItem_def)
  qed
qed

lemma processItem_index: "processItem S E = Inr S' \<Longrightarrow> currentIndex S < length (dataItems S)"
  by (auto simp: processItem_def split: if_splits)



lemma binary_exponent_numeral:
  "binary_exponent (numeral k) x =
     (if 2 \<le> x then binary_exponent (pred_numeral k) (x / 2) + 1
      else if x < 1 then binary_exponent (pred_numeral k) (x * 2) - 1
      else 0)"
  by (simp add: numeral_eq_Suc)

lemmas number_ops =
  js_zero_def js_inf_def js_add_def js_sub_def js_mul_def js_div_def js_lt_def js_le_def

lemmas number_defs =
  to_double_def ulp_def round_half_even_def binary_exponent_numeral pow2_def number_ops

text \<open>The doubles nearest to the reals that come up in the examples.\<close>

lemma example_numbers:
  "to_double 0 = Num 0"
  "to_double (1 / 10) = Num (3602879701896397 / 36028797018963968)"
  "to_double (32425917317067571 / 36028797018963968) = Num (8106479329266893 / 9007199254740992)"
  "to_double (28823037615171175 / 36028797018963968) = Num (3602879701896397 / 4503599627370496)"
  "to_double (25220157913274779 / 36028797018963968) = Num (6305039478318695 / 9007199254740992)"
  "to_double 20 = Num 20"
  "to_double 2 = Num 2"
  "to_double (1 / 50) = Num (5764607523034235 / 288230376151711744)"
  "to_double (28823037615171175 / 72057594037927936) = Num (3602879701896397 / 9007199254740992)"
  "to_double (1 / 5) = Num (3602879701896397 / 18014398509481984)"
  "to_double (18014398509481985 / 4503599627370496) = Num 4"
  "to_double 1 = Num 1"
  "to_double (32425917317067571 / 9007199254740992) = Num (8106479329266893 / 2251799813685248)"
  "to_double (3602879701896397 / 9007199254740992) = Num (3602879701896397 / 9007199254740992)"
  "to_double (7 / 10) = Num (3152519739159347 / 4503599627370496)"
  "to_double (1 / 2) = Num (1 / 2)"
  "to_double (8106479329266893 / 4503599627370496) = Num (8106479329266893 / 4503599627370496)"
  "to_double (19815838360430183 / 9007199254740992) = Num (2476979795053773 / 1125899906842624)"
  "to_double (16212958658533787 / 9007199254740992) = Num (4053239664633447 / 2251799813685248)"
  "to_double (4053239664633447 / 8106479329266893) = Num (4503599627370497 / 9007199254740992)"
  "to_double (65715007115831415416180825873449 / 40564819207303340847894502572032) = Num (1823957849085051 / 1125899906842624)"
  "to_double (18194542494576805 / 9007199254740992) = Num (4548635623644201 / 2251799813685248)"
  "to_double (14591662792680407 / 9007199254740992) = Num (1823957849085051 / 1125899906842624)"
  "to_double (3647915698170102 / 8106479329266893) = Num (8106479329266893 / 18014398509481984)"
  "to_double (29206669829258407752355848084521 / 20282409603651670423947251286016) = Num (6485183463413515 / 4503599627370496)"
  "to_double (16573246628723427 / 9007199254740992) = Num (4143311657180857 / 2251799813685248)"
  "to_double (12970366926827031 / 9007199254740992) = Num (1621295865853379 / 1125899906842624)"
  "to_double (3242591731706758 / 8106479329266893) = Num (7205759403792795 / 18014398509481984)"
  "to_double (51111672201202215593242566464635 / 40564819207303340847894502572032) = Num (2837267765243413 / 2251799813685248)"
  "to_double (14951950762870049 / 9007199254740992) = Num (467248461339689 / 281474976710656)"
  "to_double (11349071060973651 / 9007199254740992) = Num (2837267765243413 / 2251799813685248)"
  "to_double (2837267765243413 / 8106479329266893) = Num (6305039478318695 / 18014398509481984)"
  "to_double 10 = Num 10"
  "to_double 50 = Num 50"
  "to_double 4 = Num 4"
  "to_double 40 = Num 40"
  "to_double 30 = Num 30"
  "to_double 3 = Num 3"
  "to_double (3 / 4) = Num (3 / 4)"
  "to_double (1 / 4) = Num (1 / 4)"
  "to_double (9 / 10) = Num (8106479329266893 / 9007199254740992)"
  "to_double (4 / 5) = Num (3602879701896397 / 4503599627370496)"
  by (simp_all add: number_defs)

lemmas layout_defs =
  number_ops example_numbers validate_def processItem_def labelled_def giveUp_def stampWord_def scheduleNext_def
  findSite_def timerCallback_def place_loop.simps
  scan_pixels.simps site_data_def getImageData_def Let_def dispose_def sort_cmp_def compare_desc_def
  fresh_canvas_def to_long_def itemAngle_def itemFontSize_def itemPercent_def
  resolvedMin_def resolvedMax_def array_get_def js_round_def
  startIndex_def rect1_def splice1_def prune_point_def rect_extent_def rect_origin_def
  data_pixel_def read_pixel_def inside_def white_def blue_def transparent_def
  setTimeout_def fillText_def site_samples_def sample_pixels_def

lemmas example_defs =
  example_series_def example_env_def example_box_def example_item_def
  default_properties_def rotating_env_def currentItem_def

subsection \<open>Ranking\<close>






subsection \<open>The overlap test\<close>

lemma scan_pixels_iff:
  "scan_pixels acc pixel i
   = (\<exists>k. i + k * 2 ^ acc < length pixel \<and> pixel ! (i + k * 2 ^ acc) \<noteq> 255)"
proof (induction acc pixel i rule: scan_pixels.induct)
  case (1 acc pixel i)
  show ?case
  proof (cases "i < length pixel")
    case False
    then have "\<not> scan_pixels acc pixel i"
      by (simp add: scan_pixels.simps)
    moreover from False have "\<not> i + k * 2 ^ acc < length pixel" for k
      by simp
    ultimately show ?thesis
      by simp
  next
    case True
    show ?thesis
    proof (cases "pixel ! i \<noteq> 255")
      case hit: True
      with True have "scan_pixels acc pixel i"
        by (simp add: scan_pixels.simps)
      moreover from True hit
      have "i + 0 * 2 ^ acc < length pixel \<and> pixel ! (i + 0 * 2 ^ acc) \<noteq> 255"
        by simp
      ultimately show ?thesis
        by blast
    next
      case miss: False
      with True have "scan_pixels acc pixel i = scan_pixels acc pixel (i + 2 ^ acc)"
        by (subst scan_pixels.simps) simp
      also from "1.IH" [OF True] miss
      have "\<dots> = (\<exists>k. i + 2 ^ acc + k * 2 ^ acc < length pixel
                     \<and> pixel ! (i + 2 ^ acc + k * 2 ^ acc) \<noteq> 255)"
        by simp
      also have "\<dots> = (\<exists>k. i + k * 2 ^ acc < length pixel \<and> pixel ! (i + k * 2 ^ acc) \<noteq> 255)"
      proof
        assume "\<exists>k. i + 2 ^ acc + k * 2 ^ acc < length pixel
                   \<and> pixel ! (i + 2 ^ acc + k * 2 ^ acc) \<noteq> 255"
        then obtain k where "i + 2 ^ acc + k * 2 ^ acc < length pixel"
          and "pixel ! (i + 2 ^ acc + k * 2 ^ acc) \<noteq> 255"
          by blast
        then have "i + Suc k * 2 ^ acc < length pixel \<and> pixel ! (i + Suc k * 2 ^ acc) \<noteq> 255"
          by (simp add: add.assoc)
        then show "\<exists>k. i + k * 2 ^ acc < length pixel \<and> pixel ! (i + k * 2 ^ acc) \<noteq> 255"
          by blast
      next
        assume "\<exists>k. i + k * 2 ^ acc < length pixel \<and> pixel ! (i + k * 2 ^ acc) \<noteq> 255"
        then obtain k where k: "i + k * 2 ^ acc < length pixel"
          "pixel ! (i + k * 2 ^ acc) \<noteq> 255"
          by blast
        with miss have "k \<noteq> 0"
          by (cases k) auto
        then obtain m where "k = Suc m"
          by (cases k) auto
        with k have "i + 2 ^ acc + m * 2 ^ acc < length pixel
                     \<and> pixel ! (i + 2 ^ acc + m * 2 ^ acc) \<noteq> 255"
          by (simp add: add.assoc)
        then show "\<exists>k. i + 2 ^ acc + k * 2 ^ acc < length pixel
                       \<and> pixel ! (i + 2 ^ acc + k * 2 ^ acc) \<noteq> 255"
          by blast
      qed
      finally show ?thesis .
    qed
  qed
qed

lemma scan_pixels_map:
  "scan_pixels acc (map f [0 ..< N]) 0 = (\<exists>k. k * 2 ^ acc < N \<and> f (k * 2 ^ acc) \<noteq> 255)"
  using scan_pixels_iff [of acc "map f [0 ..< N]" 0] by auto

lemma data_pixel_in_rect:
  assumes "j < rect_extent sw * rect_extent sh"
  shows "rect_origin sx sw \<le> fst (data_pixel sx sy sw sh j)
         \<and> fst (data_pixel sx sy sw sh j) < rect_origin sx sw + int (rect_extent sw)
         \<and> rect_origin sy sh \<le> snd (data_pixel sx sy sw sh j)
         \<and> snd (data_pixel sx sy sw sh j) < rect_origin sy sh + int (rect_extent sh)"
proof -
  from assms have w: "0 < rect_extent sw"
    by (cases "rect_extent sw") auto
  then have "j mod rect_extent sw < rect_extent sw"
    by simp
  moreover from assms have "j div rect_extent sw < rect_extent sh"
    by (simp add: less_mult_imp_div_less mult.commute)
  ultimately show ?thesis
    by (simp add: data_pixel_def)
qed

text \<open>
  Claim C4. At a candidate \<open>p\<close> of the point list, the overlap test reads the raster in
  the label's margin-expanded box, moved to the candidate point and to canvas
  coordinates: the rectangle at \<open>(sx, sy)\<close> of width \<open>sw\<close> and height \<open>sh\<close>. A box without
  area is an \<open>IndexSizeError\<close>. Otherwise the candidate is rejected (the search goes on
  from \<open>p + 5\<close>, on the pruned points) if and only if one of the bytes at the indices
  \<open>0, 2^accuracy, 2 * 2^accuracy, ...\<close> of the image data of that rectangle is not 255,
  byte \<open>i\<close> being channel \<open>i mod 4\<close> of the raster's pixel number \<open>i div 4\<close> of the
  rectangle; when all of them are 255 the candidate is accepted and the search stops
  with that point. Every pixel of the image data lies in the rectangle.
\<close>

theorem candidate_rejected_iff_sample_not_255:
  assumes "0 \<le> p" and "p < int (length (points S))"
  shows "(let x = fst (points S ! nat p);
              y = snd (points S ! nat p);
              sx = x + maxLeft B - pixelMarginLeft B + innerWidth S / 2;
              sy = y + maxTop B - pixelMarginTop B + innerHeight S / 2;
              sw = maxRight B - maxLeft B + pixelMarginLeft B + pixelMarginRight B;
              sh = maxBottom B - maxTop B + pixelMarginTop B + pixelMarginBottom B
          in place_loop S n angle B p
             = (if to_long sw = 0 \<or> to_long sh = 0 then Inl IndexSizeError
                else if \<exists>k. k * 2 ^ accuracy (props S) < 4 * (rect_extent sw * rect_extent sh)
                          \<and> channel ((k * 2 ^ accuracy (props S)) mod 4)
                              (read_pixel (canvas S)
                                 (data_pixel sx sy sw sh ((k * 2 ^ accuracy (props S)) div 4)))
                            \<noteq> 255
                then place_loop (S\<lparr>points := prune_point n angle B (nat p) (points S)\<rparr>)
                       n angle B (p + 5)
                else Inr (Found x y, S))
             \<and> (\<forall>j < rect_extent sw * rect_extent sh.
                   rect_origin sx sw \<le> fst (data_pixel sx sy sw sh j)
                   \<and> fst (data_pixel sx sy sw sh j) < rect_origin sx sw + int (rect_extent sw)
                   \<and> rect_origin sy sh \<le> snd (data_pixel sx sy sw sh j)
                   \<and> snd (data_pixel sx sy sw sh j) < rect_origin sy sh + int (rect_extent sh)))"
  using assms
  by (subst place_loop.simps)
     (simp add: Let_def site_data_def getImageData_def rect1_def scan_pixels_map
        data_pixel_in_rect)

theorem candidate_rejected_iff_sample_not_255_witness:
  "(0::int) \<le> 0 \<and> 0 < int (length (points example_first))
   \<and> (0::int) \<le> 5 \<and> 5 < int (length (points example_first))
   \<and> points example_first ! nat 0 = (0, 0) \<and> points example_first ! nat 5 = (1, 1)
   \<and> read_pixel (canvas example_first) (data_pixel 8 8 4 4 0) = blue
   \<and> place_loop example_first 1 (Some 0) example_box 0
       = place_loop example_first 1 (Some 0) example_box 5
   \<and> \<not> (\<exists>k. k * 2 ^ 2 < 4 * (rect_extent 4 * rect_extent 4)
            \<and> channel ((k * 2 ^ 2) mod 4)
                (read_pixel (canvas example_first) (data_pixel 9 9 4 4 ((k * 2 ^ 2) div 4)))
              \<noteq> 255)
   \<and> place_loop example_first 1 (Some 0) example_box 5 = Inr (Found 1 1, example_first)
   \<and> data_pixel 9 9 4 4 15 = (12, 12)"
proof -
  let ?S = "example_first"
  have pts: "points ?S = [(0, 0), (9, 9), (9, 9), (9, 9), (9, 9), (1, 1)]"
    by (simp add: example_first_def layout_defs example_defs)
  have st: "accuracy (props ?S) = 2" "innerWidth ?S = 20" "innerHeight ?S = 20"
    by (simp_all add: example_first_def layout_defs example_defs)
  have h1: "(0::int) \<le> 0" and h2: "0 < int (length (points ?S))"
    and h3: "(0::int) \<le> 5" and h4: "5 < int (length (points ?S))"
    by (simp_all add: pts)
  have p0: "points ?S ! nat 0 = (0, 0)" and p5: "points ?S ! nat 5 = (1, 1)"
    by (simp_all add: pts)
  have hit: "read_pixel (canvas ?S) (data_pixel 8 8 4 4 0) = blue"
    by (simp add: example_first_def layout_defs example_defs)
  have same: "?S\<lparr>points := prune_point 1 (Some 0) example_box (nat p) (points ?S)\<rparr> = ?S" for p
    by (simp add: prune_point_def)
  from hit have e: "\<exists>k. k * 2 ^ 2 < 4 * (rect_extent 4 * rect_extent 4)
            \<and> channel ((k * 2 ^ 2) mod 4)
                (read_pixel (canvas ?S) (data_pixel 8 8 4 4 ((k * 2 ^ 2) div 4)))
              \<noteq> 255"
    by (intro exI [of _ 0]) (simp add: blue_def rect_extent_def to_long_def)
  have box: "to_long 4 = 4"
    "(0::real) + maxLeft example_box - pixelMarginLeft example_box + 20 / 2 = 8"
    "(0::real) + maxTop example_box - pixelMarginTop example_box + 20 / 2 = 8"
    "(1::real) + maxLeft example_box - pixelMarginLeft example_box + 20 / 2 = 9"
    "(1::real) + maxTop example_box - pixelMarginTop example_box + 20 / 2 = 9"
    "maxRight example_box - maxLeft example_box + pixelMarginLeft example_box
       + pixelMarginRight example_box = 4"
    "maxBottom example_box - maxTop example_box + pixelMarginTop example_box
       + pixelMarginBottom example_box = 4"
    by (simp_all add: example_box_def to_long_def)
  from candidate_rejected_iff_sample_not_255
         [OF h1 h2, where n = 1 and angle = "Some 0" and B = example_box] e
  have rej: "place_loop ?S 1 (Some 0) example_box 0 = place_loop ?S 1 (Some 0) example_box 5"
    unfolding Let_def p0 st same fst_conv snd_conv box by simp
  have ev: "place_loop ?S 1 (Some 0) example_box 5 = Inr (Found 1 1, ?S)"
    by (simp add: example_first_def layout_defs example_defs)
  have nx: "place_loop ?S 1 (Some 0) example_box (5 + 5) \<noteq> Inr (Found 1 1, ?S)"
    by (simp add: place_loop.simps pts)
  from candidate_rejected_iff_sample_not_255
         [OF h3 h4, where n = 1 and angle = "Some 0" and B = example_box] ev nx
  have acc: "\<not> (\<exists>k. k * 2 ^ 2 < 4 * (rect_extent 4 * rect_extent 4)
            \<and> channel ((k * 2 ^ 2) mod 4)
                (read_pixel (canvas ?S) (data_pixel 9 9 4 4 ((k * 2 ^ 2) div 4)))
              \<noteq> 255)"
    unfolding Let_def p5 st same fst_conv snd_conv box
    by (auto split: if_splits)
  have far: "data_pixel 9 9 4 4 15 = (12, 12)"
    by (simp add: data_pixel_def rect_origin_def rect_extent_def to_long_def)
  from h1 h2 h3 h4 hit rej acc ev far show ?thesis
    by (simp add: pts)
qed

subsection \<open>Font size and rotation\<close>

lemma processItem_label:
  assumes "processItem S E = Inr S'"
  shows "fontSize (dataItems S' ! currentIndex S) = itemFontSize S (dataItems S ! currentIndex S)
         \<and> rotation (dataItems S' ! currentIndex S) = itemAngle S E (dataItems S ! currentIndex S)"
  using assms processItem_index [OF assms]
  by (cases rule: processItem_cases)
     (auto simp: giveUp_def stampWord_def scheduleNext_def setTimeout_def labelled_def Let_def)

text \<open>
  Claim C1, at a failing input. With absolute font sizes from 10 to 50, the scale factor
  at 1 and the values 2 (the lowest of the series) and 4 (the highest), the word with the
  lowest value gets 10, but the word with the highest value gets 30, not 50: its
  position is computed as \<open>(4 - 2) / 4\<close>, the distance from the lowest value divided by
  the highest value, not by the range.
\<close>

theorem highest_value_gets_less_than_maxFontSize:
  "resolvedMin interpolation_series = Num 10 \<and> resolvedMax interpolation_series = Num 50
   \<and> adjustedFont interpolation_series = Num 1
   \<and> map itemValue (dataItems interpolation_series) = [4, 2]
   \<and> low interpolation_series = 2 \<and> high interpolation_series = 4
   \<and> itemFontSize interpolation_series (dataItems interpolation_series ! 1) = Num 10
   \<and> itemFontSize interpolation_series (dataItems interpolation_series ! 0) = Num 30
   \<and> (\<exists>S'. processItem interpolation_series example_env = Inr S'
          \<and> fontSize (dataItems S' ! 0) = Num 30)"
proof -
  have a: "itemFontSize interpolation_series (dataItems interpolation_series ! 0) = Num 30"
    by (simp add: interpolation_series_def itemFontSize_def itemPercent_def resolvedMin_def
        resolvedMax_def example_defs number_defs)
  have "\<exists>S'. processItem interpolation_series example_env = Inr S'"
    by (simp add: interpolation_series_def layout_defs example_defs)
  then obtain S' where p: "processItem interpolation_series example_env = Inr S'"
    by blast
  from processItem_label [OF p] a have "fontSize (dataItems S' ! 0) = Num 30"
    by (simp add: interpolation_series_def example_defs)
  with p have "\<exists>S'. processItem interpolation_series example_env = Inr S'
                  \<and> fontSize (dataItems S' ! 0) = Num 30"
    by (intro exI [of _ S']) simp
  moreover have "resolvedMin interpolation_series = Num 10
     \<and> resolvedMax interpolation_series = Num 50
     \<and> adjustedFont interpolation_series = Num 1
     \<and> map itemValue (dataItems interpolation_series) = [4, 2]
     \<and> low interpolation_series = 2 \<and> high interpolation_series = 4
     \<and> itemFontSize interpolation_series (dataItems interpolation_series ! 1) = Num 10"
    by (simp add: interpolation_series_def itemFontSize_def itemPercent_def resolvedMin_def
        resolvedMax_def example_defs number_defs)
  ultimately show ?thesis
    using a by simp
qed

lemma js_le_not_lt: "js_le t r \<Longrightarrow> \<not> js_lt r t"
  by (auto simp: js_le_def js_lt_def split: if_splits)

text \<open>
  Claim C6. When the relative font size of the word that \<open>processItem\<close> handles is at
  least \<open>rotationThreshold\<close>, its label gets the rotation 0; and a label that gets
  another rotation belongs to a word strictly below the threshold, the rotation being
  the entry of \<open>angles\<close> at the random index.
\<close>

theorem rotation_only_below_threshold:
  assumes "processItem S E = Inr S'"
  shows "(js_le (to_double (rotationThreshold (props S)))
            (js_div (js_sub (itemFontSize S (dataItems S ! currentIndex S)) (resolvedMin S))
               (js_sub (resolvedMax S) (resolvedMin S)))
          \<longrightarrow> rotation (dataItems S' ! currentIndex S) = Some 0)
         \<and> (rotation (dataItems S' ! currentIndex S) \<noteq> Some 0
            \<longrightarrow> js_lt (js_div (js_sub (itemFontSize S (dataItems S ! currentIndex S))
                                (resolvedMin S))
                         (js_sub (resolvedMax S) (resolvedMin S)))
                  (to_double (rotationThreshold (props S)))
                \<and> rotation (dataItems S' ! currentIndex S)
                  = array_get (angles (props S))
                      (js_round (randomAngle E * (real (length (angles (props S))) - 1))))"
  using processItem_label [OF assms]
  by (auto simp: itemAngle_def dest: js_le_not_lt)

theorem rotation_only_below_threshold_witness:
  "(\<exists>S'. processItem (interpolation_series\<lparr>low := 1\<rparr>) rotating_env = Inr S'
         \<and> js_le (to_double (rotationThreshold (props (interpolation_series\<lparr>low := 1\<rparr>))))
             (js_div
                (js_sub (itemFontSize (interpolation_series\<lparr>low := 1\<rparr>)
                           (dataItems (interpolation_series\<lparr>low := 1\<rparr>) ! 0))
                   (resolvedMin (interpolation_series\<lparr>low := 1\<rparr>)))
                (js_sub (resolvedMax (interpolation_series\<lparr>low := 1\<rparr>))
                   (resolvedMin (interpolation_series\<lparr>low := 1\<rparr>))))
         \<and> rotation (dataItems S' ! 0) = Some 0)
   \<and> (\<exists>S'. processItem interpolation_series rotating_env = Inr S'
         \<and> rotation (dataItems S' ! 0) = Some 90
         \<and> js_lt (js_div
                    (js_sub (itemFontSize interpolation_series (dataItems interpolation_series ! 0))
                       (resolvedMin interpolation_series))
                    (js_sub (resolvedMax interpolation_series) (resolvedMin interpolation_series)))
             (to_double (rotationThreshold (props interpolation_series))))"
proof -
  let ?A = "interpolation_series\<lparr>low := 1\<rparr>"
  let ?B = "interpolation_series"
  have ia: "currentIndex ?A = 0" and ib: "currentIndex ?B = 0"
    by (simp_all add: interpolation_series_def example_defs)
  have "\<exists>S'. processItem ?A rotating_env = Inr S'"
    by (simp add: interpolation_series_def layout_defs example_defs)
  then obtain Sa where pa: "processItem ?A rotating_env = Inr Sa"
    by blast
  have ra: "js_le (to_double (rotationThreshold (props ?A)))
              (js_div (js_sub (itemFontSize ?A (dataItems ?A ! 0)) (resolvedMin ?A))
                 (js_sub (resolvedMax ?A) (resolvedMin ?A)))"
    by (simp add: interpolation_series_def itemFontSize_def itemPercent_def resolvedMin_def
        resolvedMax_def example_defs number_defs)
  from rotation_only_below_threshold [OF pa] ra have a: "rotation (dataItems Sa ! 0) = Some 0"
    by (simp add: ia)
  have "\<exists>S'. processItem ?B rotating_env = Inr S'"
    by (simp add: interpolation_series_def layout_defs example_defs)
  then obtain Sb where pb: "processItem ?B rotating_env = Inr Sb"
    by blast
  have "itemAngle ?B rotating_env (dataItems ?B ! 0) = Some 90"
    by (simp add: interpolation_series_def itemAngle_def array_get_def
        js_round_def itemFontSize_def itemPercent_def resolvedMin_def resolvedMax_def
        example_defs number_defs)
  with processItem_label [OF pb] have b: "rotation (dataItems Sb ! 0) = Some 90"
    by (simp add: ib)
  then have nb: "rotation (dataItems Sb ! currentIndex ?B) \<noteq> Some 0"
    by (simp add: ib)
  from rotation_only_below_threshold [OF pb] nb
  have rb: "js_lt (js_div (js_sub (itemFontSize ?B (dataItems ?B ! 0)) (resolvedMin ?B))
                     (js_sub (resolvedMax ?B) (resolvedMin ?B)))
              (to_double (rotationThreshold (props ?B)))"
    by (simp add: ib)
  from pa ra a have "\<exists>S'. processItem ?A rotating_env = Inr S'
         \<and> js_le (to_double (rotationThreshold (props ?A)))
             (js_div (js_sub (itemFontSize ?A (dataItems ?A ! 0)) (resolvedMin ?A))
                (js_sub (resolvedMax ?A) (resolvedMin ?A)))
         \<and> rotation (dataItems S' ! 0) = Some 0"
    by (intro exI [of _ Sa] conjI)
  moreover from pb b rb have "\<exists>S'. processItem ?B rotating_env = Inr S'
         \<and> rotation (dataItems S' ! 0) = Some 90
         \<and> js_lt (js_div (js_sub (itemFontSize ?B (dataItems ?B ! 0)) (resolvedMin ?B))
                    (js_sub (resolvedMax ?B) (resolvedMin ?B)))
             (to_double (rotationThreshold (props ?B)))"
    by (intro exI [of _ Sb] conjI)
  ultimately show ?thesis
    by (rule conjI)
qed

text \<open>
  When the highest value is 0 the position of a word is a quotient by zero: NaN for the
  word at the lowest value, an infinity above it. The font size is then NaN or
  infinite, and the word is not rotated.
\<close>

lemma font_size_of_zero_high:
  "itemFontSize (interpolation_series\<lparr>high := 0\<rparr>) (dataItems interpolation_series ! 1) = NaN"
  "itemAngle (interpolation_series\<lparr>high := 0\<rparr>) rotating_env
     (dataItems interpolation_series ! 1) = Some 0"
  "itemFontSize (interpolation_series\<lparr>high := 0\<rparr>) (dataItems interpolation_series ! 0)
   = PosInf"
  "itemAngle (interpolation_series\<lparr>high := 0\<rparr>) rotating_env
     (dataItems interpolation_series ! 0) = Some 0"
  by (simp_all add: interpolation_series_def itemAngle_def itemFontSize_def itemPercent_def
      resolvedMin_def resolvedMax_def example_defs number_ops example_numbers)

subsection \<open>Exhausting the candidates\<close>







subsection \<open>One word per callback\<close>

lemma processItem_timers:
  assumes "processItem S E = Inr S'"
  shows "length (placed S') \<le> Suc (length (placed S))
         \<and> (if (\<exists>x y S1. findSite S E (currentItem S) = Inr (Found x y, S1))
               \<and> int (currentIndex S) < int (length (dataItems S)) - 1
            then timers S' = nextTimer S # timers S \<and> processTimeout S' = Some (nextTimer S)
            else timers S' = timers S \<and> processTimeout S' = processTimeout S)"
  using assms
proof (cases rule: processItem_cases)
  case (exhausted pts)
  then show ?thesis
    by (simp add: currentItem_def giveUp_def)
next
  case (found pts x y)
  then show ?thesis
    by (auto simp: currentItem_def stampWord_def scheduleNext_def setTimeout_def Let_def)
qed

lemma processItem_one_chain:
  assumes "processItem S E = Inr S'" and "timers S = []"
  shows "one_chain S'"
  using processItem_timers [OF assms(1)] assms(2)
  by (auto simp: one_chain_def split: if_splits)

lemma dispose_one_chain: "one_chain S \<Longrightarrow> timers (dispose S) = []"
  by (auto simp: one_chain_def dispose_def split: option.splits)

lemma validate_one_chain:
  assumes "validate S E = Inr S'" and "one_chain S"
  shows "one_chain S'"
proof -
  let ?S0 = "S\<lparr>invalid := False, currentIndex := 0,
               dataItems := sort_cmp (compare_desc itemValue) (dataItems S)\<rparr>"
  from assms(2) have "one_chain ?S0"
    by (simp add: one_chain_def)
  then have d: "timers (dispose ?S0) = []"
    by (rule dispose_one_chain)
  show ?thesis
  proof (cases "0 < innerWidth (dispose ?S0) \<and> 0 < innerHeight (dispose ?S0)")
    case True
    with assms(1) obtain T where "processItem T E = Inr S'" and "timers T = timers (dispose ?S0)"
      by (auto simp: validate_def Let_def)
    with d show ?thesis
      by (simp add: processItem_one_chain)
  next
    case False
    with assms(1) have "S' = dispose ?S0"
      by (auto simp: validate_def Let_def)
    with d show ?thesis
      by (simp add: one_chain_def)
  qed
qed

lemma timerCallback_one_chain:
  assumes "timerCallback S E t = Inr S'" and "one_chain S" and "t \<in> set (timers S)"
  shows "one_chain S'"
proof -
  from assms(2,3) have "removeAll t (timers S) = []"
    by (auto simp: one_chain_def)
  with assms(1) show ?thesis
    by (auto simp: timerCallback_def intro: processItem_one_chain)
qed

lemma reachable_one_chain: "reachable S \<Longrightarrow> one_chain S"
proof (induction rule: reachable.induct)
  case (start S)
  then show ?case
    by (simp add: one_chain_def)
next
  case (validated S E S')
  then show ?case
    by (simp add: validate_one_chain)
next
  case (fired S t E S')
  then show ?case
    by (simp add: timerCallback_one_chain)
qed

lemma example_first_eq: "validate example_series example_env = Inr example_first"
  by (simp add: example_first_def layout_defs example_defs)

lemma example_first_timers:
  "timers example_first = [0] \<and> currentIndex example_first = 0
   \<and> length (dataItems example_first) = 2 \<and> length (placed example_first) = 1"
  by (simp add: example_first_def layout_defs example_defs)

lemma example_second_eq: "timerCallback example_first example_env 0 = Inr example_second"
  by (simp add: example_second_def example_first_def layout_defs example_defs)

lemma example_second_timers:
  "timers example_second = [] \<and> length (placed example_second) = 2"
  by (simp add: example_second_def example_first_def layout_defs example_defs)

lemma reachable_example_first: "reachable example_first"
proof -
  have "reachable example_series"
    by (rule reachable.start) (simp_all add: example_defs)
  then show ?thesis
    using example_first_eq by (rule reachable.validated)
qed

lemma reachable_example_second: "reachable example_second"
proof -
  have "0 \<in> set (timers example_first)"
    by (simp add: example_first_timers)
  with reachable_example_first show ?thesis
    using example_second_eq by (rule reachable.fired)
qed

text \<open>
  Claim C7 as stated fails where the candidates are exhausted: the small series, before
  its validation, has no candidate point, so \<open>processItem\<close> gives up on the first of
  its two words; \<open>_currentIndex\<close> (0) is less than \<open>dataItems.length - 1\<close> (1), and yet
  no callback is scheduled.
\<close>

theorem no_callback_when_exhausted:
  "processItem example_series example_env
     = Inr (giveUp example_series (labelled example_series example_env (currentItem example_series)))
   \<and> int (currentIndex example_series) < int (length (dataItems example_series)) - 1
   \<and> timers (giveUp example_series (labelled example_series example_env (currentItem example_series)))
       = []
   \<and> processTimeout
        (giveUp example_series (labelled example_series example_env (currentItem example_series)))
       = None"
  by (simp add: layout_defs example_defs)

text \<open>
  Claim C7, amended. An invocation of \<open>processItem\<close> that returns places at most one
  word. It schedules exactly one callback, held by \<open>_processTimeout\<close>, if and only if
  it found a site for its word and \<open>_currentIndex\<close> is less than \<open>dataItems.length - 1\<close>;
  otherwise (the last word, or the candidates exhausted) it schedules none. The callback
  advances \<open>_currentIndex\<close> by one and processes that item. In every state the series
  reaches at most one timer is live and \<open>_processTimeout\<close> holds it, so that the
  disposal at the start of \<open>validate\<close> leaves no timer: no two chains of placements run
  side by side.
\<close>

theorem one_word_per_callback:
  "(processItem S E = Inr S'
      \<longrightarrow> length (placed S') \<le> Suc (length (placed S))
        \<and> (if (\<exists>x y S1. findSite S E (currentItem S) = Inr (Found x y, S1))
              \<and> int (currentIndex S) < int (length (dataItems S)) - 1
           then timers S' = nextTimer S # timers S \<and> processTimeout S' = Some (nextTimer S)
           else timers S' = timers S \<and> processTimeout S' = processTimeout S))
   \<and> timerCallback S E t
       = processItem (S\<lparr>timers := removeAll t (timers S), currentIndex := Suc (currentIndex S)\<rparr>) E
   \<and> (reachable S
      \<longrightarrow> length (timers S) \<le> 1
        \<and> (\<forall>u. u \<in> set (timers S) \<longrightarrow> processTimeout S = Some u)
        \<and> timers (dispose S) = [])"
proof (intro conjI impI)
  assume "processItem S E = Inr S'"
  from processItem_timers [OF this]
  show "length (placed S') \<le> Suc (length (placed S))"
    and "if (\<exists>x y S1. findSite S E (currentItem S) = Inr (Found x y, S1))
            \<and> int (currentIndex S) < int (length (dataItems S)) - 1
         then timers S' = nextTimer S # timers S \<and> processTimeout S' = Some (nextTimer S)
         else timers S' = timers S \<and> processTimeout S' = processTimeout S"
    by blast+
next
  show "timerCallback S E t
        = processItem (S\<lparr>timers := removeAll t (timers S), currentIndex := Suc (currentIndex S)\<rparr>) E"
    by (simp add: timerCallback_def)
next
  assume "reachable S"
  then have c: "one_chain S"
    by (rule reachable_one_chain)
  then show "length (timers S) \<le> 1"
    by (auto simp: one_chain_def)
  from c show "\<forall>u. u \<in> set (timers S) \<longrightarrow> processTimeout S = Some u"
    by (auto simp: one_chain_def)
  from c show "timers (dispose S) = []"
    by (rule dispose_one_chain)
qed

theorem one_word_per_callback_witness:
  "timerCallback example_first example_env 0 = Inr example_second
   \<and> processItem (example_first\<lparr>timers := removeAll 0 (timers example_first),
                                currentIndex := Suc (currentIndex example_first)\<rparr>) example_env
       = Inr example_second
   \<and> length (placed example_second) = 2 \<and> length (placed example_first) = 1
   \<and> timers example_second = []
   \<and> reachable example_first \<and> timers example_first = [0]
   \<and> processTimeout example_first = Some 0 \<and> timers (dispose example_first) = []"
proof -
  let ?U = "example_first\<lparr>timers := removeAll 0 (timers example_first),
                          currentIndex := Suc (currentIndex example_first)\<rparr>"
  note t = one_word_per_callback [of ?U example_env example_second]
  note c = one_word_per_callback [of example_first example_env _ 0]
  from c example_second_eq have p: "processItem ?U example_env = Inr example_second"
    by simp
  from c reachable_example_first example_first_timers
  have r: "processTimeout example_first = Some 0 \<and> timers (dispose example_first) = []"
    by simp
  from t p have "length (placed example_second) \<le> Suc (length (placed ?U))"
    by blast
  with example_second_timers example_first_timers example_second_eq p r reachable_example_first
  show ?thesis
    by simp
qed

subsection \<open>Placed words and the raster\<close>

lemma aligned_pixel_index:
  assumes "i mod 2 ^ acc = (0::nat)"
  shows "(4 * (i div 4)) mod 2 ^ acc = 0"
proof (cases "acc < 2")
  case True
  then have "acc = 0 \<or> acc = 1"
    by auto
  then show ?thesis
    by auto
next
  case False
  then obtain m where m: "acc = m + 2"
    by (metis add.commute le_add_diff_inverse not_less)
  have "(4::nat) dvd 2 ^ acc"
    by (simp add: m)
  moreover from assms have "2 ^ acc dvd i"
    by (simp add: dvd_eq_mod_eq_0)
  ultimately have "4 dvd i"
    by (rule dvd_trans)
  then have "4 * (i div 4) = i"
    by simp
  with assms show ?thesis
    by simp
qed

lemma getImageData_nth:
  assumes "getImageData R sx sy sw sh = Inr pixel"
    and "j < 4 * (rect_extent sw * rect_extent sh)"
  shows "pixel ! j = channel (j mod 4) (read_pixel R (data_pixel sx sy sw sh (j div 4)))"
    and "length pixel = 4 * (rect_extent sw * rect_extent sh)"
  using assms by (auto simp: getImageData_def split: if_splits)

lemma channel_red: "channel 0 c = fst c"
  by (cases c) simp

lemma accepted_sample_red:
  assumes g: "getImageData R sx sy sw sh = Inr pixel"
    and n: "\<not> scan_pixels acc pixel 0"
    and q: "q \<in> set (sample_pixels acc sx sy sw sh)"
  shows "inside R q \<and> fst (pix R q) = 255"
proof -
  let ?N = "4 * (rect_extent sw * rect_extent sh)"
  from q obtain i where i: "i < ?N" "i mod 2 ^ acc = 0"
    and qi: "q = data_pixel sx sy sw sh (i div 4)"
    by (auto simp: sample_pixels_def)
  let ?j = "4 * (i div 4)"
  have j: "?j < ?N"
    using i(1) by (simp add: mult.commute [of 4] add.commute le_less_trans [OF div_times_less_eq_dividend])
  have "?j mod 2 ^ acc = 0"
    using i(2) by (rule aligned_pixel_index)
  then have k: "(?j div 2 ^ acc) * 2 ^ acc = ?j"
    by (simp add: dvd_eq_mod_eq_0 [symmetric])
  from n have "\<not> (?j div 2 ^ acc) * 2 ^ acc < length pixel
               \<or> pixel ! ((?j div 2 ^ acc) * 2 ^ acc) = 255"
    unfolding scan_pixels_iff by auto
  with k j getImageData_nth(2) [OF g j] have "pixel ! ?j = 255"
    by simp
  with getImageData_nth(1) [OF g j] qi have "channel 0 (read_pixel R q) = 255"
    by simp
  then show ?thesis
    by (auto simp: read_pixel_def transparent_def channel_red split: if_splits)
qed

lemma place_loop_found:
  "place_loop S n angle B p = Inr (Found x y, S1)
   \<Longrightarrow> \<exists>pixel. site_data S1 B (x, y) = Inr pixel \<and> \<not> scan_pixels (accuracy (props S1)) pixel 0"
proof (induction S n angle B p rule: place_loop.induct)
  case (1 S n angle B p)
  from "1.prems" show ?case
    by (subst (asm) place_loop.simps) (auto split: if_splits sum.splits dest!: "1.IH")
qed

lemma accepted_site_red:
  assumes "findSite S E d = Inr (Found x y, S1)"
    and "q \<in> set (site_samples S1
                    (labelBox E (currentText d) (itemFontSize S d) (itemAngle S E d)) (x, y))"
  shows "inside (canvas S1) q \<and> fst (pix (canvas S1) q) = 255"
proof -
  let ?B = "labelBox E (currentText d) (itemFontSize S d) (itemAngle S E d)"
  from assms(1) obtain pixel where "site_data S1 ?B (x, y) = Inr pixel"
    and "\<not> scan_pixels (accuracy (props S1)) pixel 0"
    unfolding findSite_def by (blast dest: place_loop_found)
  with assms(2) show ?thesis
    unfolding site_data_def site_samples_def by (rule accepted_sample_red [rotated 2])
qed

text \<open>The invariant of a pass.\<close>

lemma stampWord_inv:
  assumes f: "findSite S E d = Inr (Found x y, S1)"
    and l: "later_clear (placed S1)" and s: "stamped S1"
  shows "later_clear (placed (stampWord S1 E (labelled S E d) x y))
         \<and> stamped (stampWord S1 E (labelled S E d) x y)"
proof -
  let ?B = "labelBox E (currentText d) (itemFontSize S d) (itemAngle S E d)"
  let ?qs = "filter (inside (canvas S1))
               (fillTextPixels E (currentText d) (itemFontSize S d) (itemAngle S E d)
                  (x + innerWidth S1 / 2) (y + innerHeight S1 / 2))"
  let ?n = "\<lparr>samples = site_samples S1 ?B (x, y), stamp = ?qs\<rparr>"
  let ?S2 = "stampWord S1 E (labelled S E d) x y"
  have p: "placed ?S2 = ?n # placed S1"
    and c: "canvas ?S2 = fillText (canvas S1) ?qs"
    by (simp_all add: stampWord_def labelled_def Let_def)
  have fresh: "\<not> hits ?n e" if "e \<in> set (placed S1)" for e
  proof
    assume "hits ?n e"
    then obtain q where q: "q \<in> set (site_samples S1 ?B (x, y))" and qe: "q \<in> set (stamp e)"
      by (auto simp: hits_def list_ex_iff)
    from accepted_site_red [OF f q] have "fst (pix (canvas S1) q) = 255"
      by simp
    moreover from s that qe have "pix (canvas S1) q = blue"
      by (auto simp: stamped_def list_all_iff)
    ultimately show False
      by (simp add: blue_def)
  qed
  with l have "later_clear (placed ?S2)"
    by (simp add: p list_all_iff)
  moreover have "stamped ?S2"
    using s by (auto simp: stamped_def p c fillText_def inside_def list_all_iff)
  ultimately show ?thesis
    by simp
qed

lemma processItem_inv:
  assumes "processItem S E = Inr S'" and "later_clear (placed S)" and "stamped S"
  shows "later_clear (placed S') \<and> stamped S'"
  using assms(1)
proof (cases rule: processItem_cases)
  case (exhausted pts)
  with assms(2,3) show ?thesis
    by (simp add: giveUp_def stamped_def)
next
  case (found pts x y)
  let ?S1 = "S\<lparr>points := pts\<rparr>"
  from assms(2,3) have "later_clear (placed ?S1)" and "stamped ?S1"
    by (simp_all add: stamped_def)
  from stampWord_inv [OF found(1) this]
  show ?thesis
    by (simp add: found(2) scheduleNext_def setTimeout_def stamped_def)
qed

lemma reachable_inv: "reachable S \<Longrightarrow> later_clear (placed S) \<and> stamped S"
proof (induction rule: reachable.induct)
  case (start S)
  then show ?case
    by (simp add: stamped_def)
next
  case (validated S E S')
  let ?S1 = "dispose (S\<lparr>invalid := False, currentIndex := 0,
                         dataItems := sort_cmp (compare_desc itemValue) (dataItems S)\<rparr>)"
  have keep: "placed ?S1 = placed S" "canvas ?S1 = canvas S"
    by (simp_all add: dispose_def split: option.splits)
  show ?case
  proof (cases "0 < innerWidth ?S1 \<and> 0 < innerHeight ?S1")
    case True
    with validated.hyps(2) obtain T where "processItem T E = Inr S'" and "placed T = []"
      by (auto simp: validate_def Let_def)
    then show ?thesis
      using processItem_inv [of T E S'] by (simp add: stamped_def)
  next
    case False
    with validated.hyps(2) have "S' = ?S1"
      by (auto simp: validate_def Let_def)
    with validated.IH keep show ?thesis
      by (simp add: stamped_def)
  qed
next
  case (fired S t E S')
  let ?U = "S\<lparr>timers := removeAll t (timers S), currentIndex := Suc (currentIndex S)\<rparr>"
  from fired.IH have "later_clear (placed ?U)" and "stamped ?U"
    by (simp_all add: stamped_def)
  with fired.hyps(3) show ?case
    unfolding timerCallback_def by (rule processItem_inv)
qed

lemma example_second_stamps:
  "map stamp (placed example_second) = [[(9, 9)], [(8, 8)]]"
  by (simp add: example_second_def example_first_def layout_defs example_defs)

lemma example_second_samples:
  "samples (placed example_second ! 1) = sample_pixels 2 8 8 4 4"
  by (simp add: example_second_def example_first_def validate_def processItem_def labelled_def
      giveUp_def stampWord_def scheduleNext_def findSite_def timerCallback_def place_loop.simps
      scan_pixels.simps site_data_def getImageData_def Let_def dispose_def sort_cmp_def
      compare_desc_def fresh_canvas_def to_long_def itemAngle_def itemFontSize_def
      itemPercent_def resolvedMin_def resolvedMax_def array_get_def number_ops
      example_numbers js_round_def startIndex_def rect1_def splice1_def prune_point_def rect_extent_def
      rect_origin_def data_pixel_def read_pixel_def inside_def white_def blue_def
      transparent_def setTimeout_def fillText_def site_samples_def example_defs)

lemma example_sample_hit: "(9, 9) \<in> set (sample_pixels 2 8 8 4 4)"
proof -
  have "(9, 9) = data_pixel 8 8 4 4 (20 div 4)"
    by (simp add: data_pixel_def rect_origin_def rect_extent_def to_long_def)
  moreover have "(20::nat) \<in> set (filter (\<lambda>i. i mod 2 ^ 2 = 0)
                                   [0 ..< 4 * (rect_extent 4 * rect_extent 4)])"
    by (simp add: rect_extent_def to_long_def)
  ultimately show ?thesis
    unfolding sample_pixels_def set_map by (rule image_eqI)
qed

text \<open>
  Claim C2 as stated fails for a later word against an earlier one. In the small series
  the first word is accepted at the centre and its box covers the pixels 8..11 by 8..11,
  all of them read by the overlap test; its glyph is stamped on (8, 8). The second word
  is rejected at the centre and accepted at (1, 1), where its box 9..12 by 9..12 reads
  only background; its glyph is then stamped on (9, 9), a pixel the test read for the
  first word.
\<close>

theorem later_stamp_in_earlier_box:
  "reachable example_second \<and> \<not> all_clear (placed example_second)"
proof -
  obtain b a where pl: "placed example_second = [b, a]"
    using example_second_stamps by auto
  with example_second_stamps have sb: "stamp b = [(9, 9)]"
    by simp
  from pl example_second_samples have "samples a = sample_pixels 2 8 8 4 4"
    by simp
  with example_sample_hit sb have "hits a b"
    by (simp add: hits_def list_ex_iff)
  with pl have "\<not> all_clear (placed example_second)"
    by simp
  with reachable_example_second show ?thesis
    by simp
qed

text \<open>
  Claim C2, amended. In every state the series reaches, the pixels the overlap test
  read for a placed word, in its margin-expanded box at the stride \<open>2^accuracy\<close>, hit
  no pixel stamped by a word placed before it in the pass; and the glyph of every
  placed word is on the raster, in blue. Every placement step keeps this.
\<close>

theorem placed_word_clear_of_earlier_stamps:
  "reachable S \<Longrightarrow> later_clear (placed S) \<and> stamped S"
  by (rule reachable_inv)

theorem placed_word_clear_of_earlier_stamps_witness:
  "reachable example_second \<and> map stamp (placed example_second) = [[(9, 9)], [(8, 8)]]
   \<and> later_clear (placed example_second) \<and> stamped example_second"
  using placed_word_clear_of_earlier_stamps [OF reachable_example_second]
    reachable_example_second example_second_stamps
  by simp

section \<open>Properties of \<open>Time.round\<close>\<close>

declare year_search.simps [simp del]

subsection \<open>Years\<close>

lemma year_search_bounds:
  "DayFromYear y \<le> d
   \<Longrightarrow> DayFromYear (year_search d y) \<le> d \<and> d < DayFromYear (year_search d y + 1)"
proof (induction d y rule: year_search.induct)
  case (1 d y)
  show ?case
  proof (cases "DayFromYear (y + 1) \<le> d")
    case True
    with "1.IH" show ?thesis
      by (subst (1 2) year_search.simps) simp
  next
    case False
    with "1.prems" show ?thesis
      by (subst (1 2) year_search.simps) simp
  qed
qed

lemma div_bounds: "0 < k \<Longrightarrow> k * (x div k) \<le> (x::int) \<and> x < k * (x div k) + k"
  using pos_mod_bound [of k x] pos_mod_sign [of k x] mult_div_mod_eq [of k x] by linarith

lemma DayFromYear_late: "1969 \<le> y \<Longrightarrow> DayFromYear y \<le> 366 * (y - 1969)"
proof -
  assume y: "1969 \<le> y"
  define a b c where "a = (y - 1969) div 4" and "b = (y - 1901) div 100"
    and "c = (y - 1601) div 400"
  have "4 * a \<le> y - 1969" "y - 1901 < 100 * b + 100" "400 * c \<le> y - 1601"
    using div_bounds [of 4 "y - 1969"] div_bounds [of 100 "y - 1901"]
      div_bounds [of 400 "y - 1601"]
    by (simp_all add: a_def b_def c_def)
  with y have "a - b + c \<le> y - 1604"
    by linarith
  then show ?thesis
    by (simp add: DayFromYear_def a_def b_def c_def)
qed

lemma DayFromYear_early: "y \<le> 1969 \<Longrightarrow> DayFromYear y \<le> 365 * (y - 1969)"
proof -
  assume y: "y \<le> 1969"
  define a b c where "a = (y - 1969) div 4" and "b = (y - 1901) div 100"
    and "c = (y - 1601) div 400"
  have "4 * a \<le> y - 1969" "y - 1901 < 100 * b + 100" "400 * c \<le> y - 1601"
    using div_bounds [of 4 "y - 1969"] div_bounds [of 100 "y - 1901"]
      div_bounds [of 400 "y - 1601"]
    by (simp_all add: a_def b_def c_def)
  with y have "a - b + c \<le> 365"
    by linarith
  then show ?thesis
    by (simp add: DayFromYear_def a_def b_def c_def)
qed

lemma DayFromYear_start:
  "DayFromYear (1969 + (if 0 \<le> d then d div 366 else d div 365)) \<le> d"
proof (cases "0 \<le> d")
  case True
  then have "0 \<le> d div 366"
    by simp
  then have "DayFromYear (1969 + d div 366) \<le> 366 * (d div 366)"
    using DayFromYear_late [of "1969 + d div 366"] by simp
  also have "\<dots> \<le> d"
    using div_bounds [of 366 d] by simp
  finally show ?thesis
    using True by simp
next
  case False
  then have "d div 365 \<le> 0"
    using div_bounds [of 365 d] by linarith
  then have "DayFromYear (1969 + d div 365) \<le> 365 * (d div 365)"
    using DayFromYear_early [of "1969 + d div 365"] by simp
  also have "\<dots> \<le> d"
    using div_bounds [of 365 d] by simp
  finally show ?thesis
    using False by simp
qed

lemma YearFromDay_bounds:
  "DayFromYear (YearFromDay d) \<le> d \<and> d < DayFromYear (YearFromDay d + 1)"
  unfolding YearFromDay_def by (rule year_search_bounds [OF DayFromYear_start])

lemma DayFromYear_mono: "y \<le> y' \<Longrightarrow> DayFromYear y \<le> DayFromYear y'"
proof (induction y' rule: int_ge_induct)
  case base
  show ?case by simp
next
  case (step i)
  with DayFromYear_less [of i] show ?case
    by simp
qed

lemma YearFromDay_unique:
  assumes "DayFromYear y \<le> d" and "d < DayFromYear (y + 1)"
  shows "YearFromDay d = y"
proof (rule ccontr)
  assume n: "YearFromDay d \<noteq> y"
  note b = YearFromDay_bounds [of d]
  show False
  proof (cases "YearFromDay d < y")
    case True
    then have "DayFromYear (YearFromDay d + 1) \<le> DayFromYear y"
      by (intro DayFromYear_mono) simp
    with assms(1) b show False
      by simp
  next
    case False
    with n have "DayFromYear (y + 1) \<le> DayFromYear (YearFromDay d)"
      by (intro DayFromYear_mono) simp
    with assms(2) b show False
      by simp
  qed
qed

subsection \<open>Days and the time within a day\<close>

lemma day_time_split: "DayFromTime v * msPerDay + TimeWithinDay v = v"
  by (simp add: DayFromTime_def TimeWithinDay_def)

lemma DayFromTime_start: "DayFromTime (d * msPerDay) = d" "TimeWithinDay (d * msPerDay) = 0"
  by (simp_all add: DayFromTime_def TimeWithinDay_def msPerDay_def)

lemma floor_day: "DayFromTime v * msPerDay = v - v mod msPerDay"
  using day_time_split [of v] by (simp add: TimeWithinDay_def)

lemma clock_parts:
  "HourFromTime v * 3600000 + MinFromTime v * 60000 + SecFromTime v * 1000
   = TimeWithinDay v - v mod 1000"
  "HourFromTime v * 3600000 + MinFromTime v * 60000 = TimeWithinDay v - v mod 60000"
  "HourFromTime v * 3600000 = TimeWithinDay v - v mod 3600000"
proof -
  define h m s where "h = (v div 3600000) mod 24" and "m = (v div 60000) mod 60"
    and "s = (v div 1000) mod 60"
  define r0 r1 r2 r3 where "r0 = v mod 1000" and "r1 = v mod 60000"
    and "r2 = v mod 3600000" and "r3 = v mod 86400000"
  have e1: "r1 = 1000 * s + r0"
    using zmod_zmult2_eq [of 60 v 1000] by (simp add: r1_def r0_def s_def)
  have e2: "r2 = 60000 * m + r1"
    using zmod_zmult2_eq [of 60 v 60000] by (simp add: r2_def r1_def m_def)
  have e3: "r3 = 3600000 * h + r2"
    using zmod_zmult2_eq [of 24 v 3600000] by (simp add: r3_def r2_def h_def)
  note defs = HourFromTime_def MinFromTime_def SecFromTime_def TimeWithinDay_def msPerDay_def
    h_def m_def s_def r0_def r1_def r2_def r3_def
  from e1 e2 e3 have f1: "h * 3600000 + m * 60000 + s * 1000 = r3 - r0"
    by linarith
  from e1 e2 e3 have f2: "h * 3600000 + m * 60000 = r3 - r1"
    by linarith
  from e1 e2 e3 have f3: "h * 3600000 = r3 - r2"
    by linarith
  from f1 show "HourFromTime v * 3600000 + MinFromTime v * 60000 + SecFromTime v * 1000
                = TimeWithinDay v - v mod 1000"
    unfolding defs .
  from f2 show "HourFromTime v * 3600000 + MinFromTime v * 60000
                = TimeWithinDay v - v mod 60000"
    unfolding defs .
  from f3 show "HourFromTime v * 3600000 = TimeWithinDay v - v mod 3600000"
    unfolding defs .
qed

lemma MakeDate_time:
  "MakeDate (DayFromTime v) (TimeWithinDay v - x) = v - x"
  using day_time_split [of v] unfolding MakeDate_def by linarith

lemma set_seconds_time:
  "MakeDate (DayFromTime v) (MakeTime (HourFromTime v) (MinFromTime v) (SecFromTime v) 0)
   = v - v mod 1000"
proof -
  have "MakeTime (HourFromTime v) (MinFromTime v) (SecFromTime v) 0
        = TimeWithinDay v - v mod 1000"
    unfolding MakeTime_def clock_parts(1) by (rule add_0_right)
  then show ?thesis
    by (simp only: MakeDate_time)
qed

lemma set_minutes_time:
  "MakeDate (DayFromTime v) (MakeTime (HourFromTime v) (MinFromTime v) 0 0) = v - v mod 60000"
proof -
  have "MakeTime (HourFromTime v) (MinFromTime v) 0 0 = TimeWithinDay v - v mod 60000"
    unfolding MakeTime_def mult_zero_left add_0_right clock_parts(2) by (rule refl)
  then show ?thesis
    by (simp only: MakeDate_time)
qed

lemma set_hours_time:
  "MakeDate (DayFromTime v) (MakeTime (HourFromTime v) 0 0 0) = v - v mod 3600000"
proof -
  have "MakeTime (HourFromTime v) 0 0 0 = TimeWithinDay v - v mod 3600000"
    unfolding MakeTime_def mult_zero_left add_0_right clock_parts(3) by (rule refl)
  then show ?thesis
    by (simp only: MakeDate_time)
qed

lemma set_midnight_time: "MakeDate (DayFromTime v) (MakeTime 0 0 0 0) = v - v mod msPerDay"
  unfolding MakeDate_def MakeTime_def mult_zero_left add_0_right floor_day by (rule refl)

subsection \<open>Months\<close>

lemma month_of_day_range: "0 \<le> month_of_day n l \<and> month_of_day n l \<le> 11"
  by (simp add: month_of_day_def)

lemma month_start_le: "0 \<le> n \<Longrightarrow> month_start (month_of_day n l) l \<le> n"
  by (simp add: month_of_day_def month_start_def)

lemma month_start_nonneg: "0 \<le> l \<Longrightarrow> 0 \<le> month_start m l"
  by (simp add: month_start_def)

lemma month_cases:
  "0 \<le> m \<Longrightarrow> m \<le> 11
   \<Longrightarrow> m = 0 \<or> m = 1 \<or> m = 2 \<or> m = 3 \<or> m = 4 \<or> m = 5 \<or> m = 6 \<or> m = 7 \<or> m = 8
       \<or> m = 9 \<or> m = 10 \<or> m = (11::int)"
  by presburger

lemma month_of_month_start:
  assumes "0 \<le> m" and "m \<le> 11" and "l = 0 \<or> l = 1"
  shows "month_of_day (month_start m l) l = m"
  using month_cases [OF assms(1,2)] assms(3)
  by (elim disjE) (simp_all add: month_of_day_def month_start_def)

lemma MakeDay_in_year:
  "0 \<le> m \<Longrightarrow> m \<le> 11
   \<Longrightarrow> MakeDay y m dt
       = DayFromYear y + month_start m (if DaysInYear y = 365 then 0 else 1) + dt - 1"
  by (simp add: MakeDay_def)

lemma MakeDay_round_trip:
  "MakeDay (YearFromTime v) (MonthFromTime v) dt = DayFromTime v + (dt - DateFromTime v)"
  using month_of_day_range [of "DayWithinYear v" "InLeapYear v"]
  by (simp add: MakeDay_in_year MonthFromTime_def DateFromTime_def DayWithinYear_def
      InLeapYear_def)

subsection \<open>The setters that \<open>round\<close> calls\<close>

lemma thisTime_update: "thisTime (H(r \<mapsto> x)) r = x"
  by (simp add: thisTime_def)

lemma set_midnight:
  "setUTCHours H r (Some 0) 0 0 0 = H(r \<mapsto> floor_ms msPerDay (thisTime H r))"
  by (simp add: setUTCHours_def floor_ms_def set_midnight_time split: option.splits)

lemma set_same_hours:
  "setUTCHours H r (getUTCHours H r) 0 0 0 = H(r \<mapsto> floor_ms 3600000 (thisTime H r))"
  by (simp add: setUTCHours_def getUTCHours_def floor_ms_def set_hours_time
      split: option.splits)

lemma set_same_minutes:
  "setUTCMinutes H r (getUTCMinutes H r) 0 0 = H(r \<mapsto> floor_ms 60000 (thisTime H r))"
  by (simp add: setUTCMinutes_def getUTCMinutes_def floor_ms_def set_minutes_time
      split: option.splits)

lemma set_same_seconds:
  "setUTCSeconds H r (getUTCSeconds H r) 0 = H(r \<mapsto> floor_ms 1000 (thisTime H r))"
  by (simp add: setUTCSeconds_def getUTCSeconds_def floor_ms_def set_seconds_time
      split: option.splits)

lemma MakeDate_round_trip:
  "MakeDate (MakeDay (YearFromTime v) (MonthFromTime v) dt) (TimeWithinDay v)
   = v - (DateFromTime v - dt) * msPerDay"
proof -
  have "MakeDate (MakeDay (YearFromTime v) (MonthFromTime v) dt) (TimeWithinDay v)
        = (DayFromTime v - (DateFromTime v - dt)) * msPerDay + TimeWithinDay v"
    by (simp add: MakeDate_def MakeDay_round_trip)
  also have "\<dots> = DayFromTime v * msPerDay + TimeWithinDay v - (DateFromTime v - dt) * msPerDay"
    by (simp add: algebra_simps)
  finally show ?thesis
    by (simp only: day_time_split)
qed

lemma set_same_date: "setUTCDate H r (getUTCDate H r) = H(r \<mapsto> same_date (thisTime H r))"
  by (simp add: setUTCDate_def getUTCDate_def same_date_def MakeDate_round_trip
      split: option.splits)

lemma set_week_date:
  "setUTCDate H r
     (case getUTCDate H r of
        None \<Rightarrow> None
      | Some d \<Rightarrow>
          (case getUTCDay H r of
             None \<Rightarrow> None
           | Some w \<Rightarrow> Some (if 1 \<le> w then d - w + 1 else d - (7 + w) + 1)))
   = H(r \<mapsto> week_start (thisTime H r))"
  by (simp add: setUTCDate_def getUTCDate_def getUTCDay_def week_start_def MakeDate_round_trip
      split: option.splits)

lemma MakeDay_first:
  "MakeDay (YearFromTime v) (MonthFromTime v) 1
   = DayFromYear (YearFromTime v) + month_start (MonthFromTime v) (InLeapYear v)"
  using month_of_day_range [of "DayWithinYear v" "InLeapYear v"]
  by (simp add: MakeDay_in_year MonthFromTime_def InLeapYear_def)

lemma set_same_month:
  "setUTCMonth H r (getUTCMonth H r) 1 = H(r \<mapsto> month_first (thisTime H r))"
  by (simp add: setUTCMonth_def getUTCMonth_def month_first_def MakeDay_first MakeDate_def
      split: option.splits)

lemma MakeDay_new_year: "MakeDay y 0 1 = DayFromYear y"
  by (simp add: MakeDay_def month_start_def)

lemma set_same_year:
  "setUTCFullYear H r (getUTCFullYear H r) 0 1 = H(r \<mapsto> year_first (thisTime H r))"
  by (simp add: setUTCFullYear_def getUTCFullYear_def year_first_def MakeDay_new_year
      MakeDate_def split: option.splits)

subsection \<open>\<open>round\<close> with count 1\<close>

lemma round_date_1:
  "round_date tg H r Second 1 f = Inr (H(r \<mapsto> floor_ms 1000 (thisTime H r)), r)"
  "round_date ES5 H r Minute 1 f = Inr (H(r \<mapsto> floor_ms 60000 (thisTime H r)), r)"
  "round_date tg H r Hour 1 f = Inr (H(r \<mapsto> floor_ms 3600000 (thisTime H r)), r)"
  "round_date tg H r Day 1 f = Inr (H(r \<mapsto> floor_ms msPerDay (same_date (thisTime H r))), r)"
  "round_date tg H r Week 1 None
   = Inr (H(r \<mapsto> floor_ms msPerDay (week_start (thisTime H r))), r)"
  "round_date tg H r Month 1 f
   = Inr (H(r \<mapsto> floor_ms msPerDay (month_first (thisTime H r))), r)"
  "round_date tg H r Year 1 f = Inr (H(r \<mapsto> floor_ms msPerDay (year_first (thisTime H r))), r)"
  "round_date tg H r Millisecond 1 f = Inr (H, r)"
  by (simp_all add: round_date_def Let_def set_same_seconds set_same_minutes set_same_hours
      set_same_date set_week_date set_same_month set_same_year set_midnight thisTime_update)

lemma round_date_minute_throws: "round_date ES2015 H r Minute n f = Inl ReferenceError"
  by (simp add: round_date_def Let_def)

lemma round_date_returns:
  "tg = ES5 \<or> u \<noteq> Minute \<Longrightarrow> \<exists>H'. round_date tg H r u n f = Inr (H', r)"
  by (cases u) (auto simp: round_date_def Let_def)

subsection \<open>Rounded time values stay\<close>

lemma TimeClip_Some: "TimeClip v = Some w \<Longrightarrow> w = v"
  by (simp add: TimeClip_def split: if_splits)

lemma floor_ms_Some:
  assumes "floor_ms k t = Some w"
  obtains v where "t = Some v" and "w = v - v mod k" and "TimeClip w = Some w"
  using assms by (auto simp: floor_ms_def split: option.splits dest: TimeClip_Some)

lemma floor_ms_fixed: "floor_ms k t = Some w \<Longrightarrow> floor_ms k (Some w) = Some w"
  by (erule floor_ms_Some) (simp add: floor_ms_def)

lemma floor_ms_idem: "floor_ms k (floor_ms k t) = floor_ms k t"
proof (cases "floor_ms k t")
  case None
  then show ?thesis
    by (simp add: floor_ms_def)
next
  case (Some w)
  then show ?thesis
    by (simp add: floor_ms_fixed)
qed

lemma same_date_fixed: "TimeClip w = Some w \<Longrightarrow> same_date (Some w) = Some w"
  by (simp add: same_date_def)

lemma midnight_parts:
  assumes "w = v - v mod msPerDay"
  shows "DayFromTime w = DayFromTime v" and "TimeWithinDay w = 0"
proof -
  have "w = DayFromTime v * msPerDay"
    using assms by (simp add: floor_day)
  then show "DayFromTime w = DayFromTime v" and "TimeWithinDay w = 0"
    by (simp_all add: DayFromTime_start)
qed


lemma week_start_fixed:
  assumes "floor_ms msPerDay (week_start t) = Some w"
  shows "week_start (Some w) = Some w"
proof -
  from assms obtain v1 where v1: "week_start t = Some v1" and w: "w = v1 - v1 mod msPerDay"
    and c: "TimeClip w = Some w"
    by (rule floor_ms_Some)
  from v1 obtain v where "t = Some v"
    and "v1 = v - (if 1 \<le> WeekDay v then WeekDay v - 1 else WeekDay v + 6) * msPerDay"
    by (auto simp: week_start_def split: option.splits dest: TimeClip_Some)
  define a where "a = DayFromTime v + 4"
  define s where "s = (if 1 \<le> a mod 7 then a mod 7 - 1 else a mod 7 + 6)"
  have v1': "v1 = v - s * msPerDay"
    using \<open>v1 = _\<close> by (simp add: s_def a_def WeekDay_def)
  have "DayFromTime v1 = DayFromTime v - s"
    unfolding v1' DayFromTime_def msPerDay_def
    using div_mult_self1 [of 86400000 v "- s"] by (simp add: algebra_simps)
  with midnight_parts(1) [OF w] have "DayFromTime w + 4 = a - s"
    by (simp add: a_def)
  moreover have "a - a mod 7 = 7 * (a div 7)"
    by (simp add: minus_mod_eq_mult_div)
  then have "a - s = 7 * (a div 7) + 1 \<or> a - s = 7 * (a div 7 - 1) + 1"
    unfolding s_def by (cases "1 \<le> a mod 7") simp_all
  then have "(a - s) mod 7 = 1"
    by presburger
  ultimately have "WeekDay w = 1"
    by (simp add: WeekDay_def)
  with c show ?thesis
    by (simp add: week_start_def)
qed

lemma month_first_fixed:
  assumes "floor_ms msPerDay (month_first t) = Some w"
  shows "month_first (Some w) = Some w"
proof -
  from assms obtain v1 where v1: "month_first t = Some v1" and w: "w = v1 - v1 mod msPerDay"
    and c: "TimeClip w = Some w"
    by (rule floor_ms_Some)
  from v1 obtain v where "t = Some v"
    and v1': "v1 = (DayFromYear (YearFromTime v) + month_start (MonthFromTime v) (InLeapYear v))
                    * msPerDay + TimeWithinDay v"
    by (auto simp: month_first_def split: option.splits dest: TimeClip_Some)
  define y m l where "y = YearFromTime v" and "m = MonthFromTime v" and "l = InLeapYear v"
  define n where "n = DayWithinYear v"
  have yb: "DayFromYear y \<le> DayFromTime v" "DayFromTime v < DayFromYear (y + 1)"
    using YearFromDay_bounds [of "DayFromTime v"] by (simp_all add: y_def YearFromTime_def)
  then have n0: "0 \<le> n"
    by (simp add: n_def DayWithinYear_def y_def)
  have l01: "l = 0 \<or> l = 1"
    by (simp add: l_def InLeapYear_def)
  have mr: "0 \<le> m" "m \<le> 11"
    using month_of_day_range [of n l] by (simp_all add: m_def MonthFromTime_def n_def l_def)
  have ms: "0 \<le> month_start m l" "month_start m l \<le> n"
    using month_start_nonneg [of l m] month_start_le [OF n0, of l] l01
    by (auto simp: m_def MonthFromTime_def n_def l_def)
  have tw: "0 \<le> TimeWithinDay v" "TimeWithinDay v < msPerDay"
    by (simp_all add: TimeWithinDay_def msPerDay_def)
  have "DayFromTime v1 = DayFromYear y + month_start m l"
    unfolding v1' DayFromTime_def y_def [symmetric] m_def [symmetric] l_def [symmetric]
    using tw by (simp add: msPerDay_def TimeWithinDay_def)
  with midnight_parts [OF w] have dw: "DayFromTime w = DayFromYear y + month_start m l"
    and tw0: "TimeWithinDay w = 0"
    by simp_all
  have "DayFromYear y + n = DayFromTime v"
    by (simp add: n_def DayWithinYear_def y_def)
  with ms yb dw have "DayFromYear y \<le> DayFromTime w" "DayFromTime w < DayFromYear (y + 1)"
    by simp_all
  then have yw: "YearFromTime w = y"
    unfolding YearFromTime_def by (rule YearFromDay_unique)
  then have lw: "InLeapYear w = l"
    by (simp add: InLeapYear_def l_def y_def)
  from yw dw have "DayWithinYear w = month_start m l"
    by (simp add: DayWithinYear_def)
  with lw month_of_month_start [OF mr l01] have mw: "MonthFromTime w = m"
    by (simp add: MonthFromTime_def)
  have "(DayFromYear y + month_start m l) * msPerDay = w"
    using day_time_split [of w] dw tw0 by simp
  with yw mw lw tw0 c show ?thesis
    by (simp add: month_first_def)
qed

lemma year_first_fixed:
  assumes "floor_ms msPerDay (year_first t) = Some w"
  shows "year_first (Some w) = Some w"
proof -
  from assms obtain v1 where v1: "year_first t = Some v1" and w: "w = v1 - v1 mod msPerDay"
    and c: "TimeClip w = Some w"
    by (rule floor_ms_Some)
  from v1 obtain v where "t = Some v"
    and v1': "v1 = DayFromYear (YearFromTime v) * msPerDay + TimeWithinDay v"
    by (auto simp: year_first_def split: option.splits dest: TimeClip_Some)
  define y where "y = YearFromTime v"
  have tw: "0 \<le> TimeWithinDay v" "TimeWithinDay v < msPerDay"
    by (simp_all add: TimeWithinDay_def msPerDay_def)
  have "DayFromTime v1 = DayFromYear y"
    unfolding v1' DayFromTime_def y_def [symmetric]
    using tw by (simp add: msPerDay_def TimeWithinDay_def)
  with midnight_parts [OF w] have dw: "DayFromTime w = DayFromYear y"
    and tw0: "TimeWithinDay w = 0"
    by simp_all
  from dw DayFromYear_less [of y] have "YearFromTime w = y"
    unfolding YearFromTime_def by (intro YearFromDay_unique) simp_all
  moreover have "DayFromYear y * msPerDay = w"
    using day_time_split [of w] dw tw0 by simp
  ultimately show ?thesis
    using tw0 c by (simp add: year_first_def)
qed

text \<open>A step of two setters, the second one \<open>setUTCHours(0, 0, 0, 0)\<close>, is idempotent.\<close>

lemma two_step_idem:
  assumes "\<And>t w. floor_ms msPerDay (g t) = Some w \<Longrightarrow> g (Some w) = Some w"
    and "g None = None"
  shows "floor_ms msPerDay (g (floor_ms msPerDay (g t))) = floor_ms msPerDay (g t)"
proof (cases "floor_ms msPerDay (g t)")
  case None
  with assms(2) show ?thesis
    by (simp add: floor_ms_def)
next
  case (Some w)
  with assms(1) [OF Some] show ?thesis
    by (simp add: floor_ms_fixed)
qed

lemma same_date_fixed':
  "floor_ms msPerDay (same_date t) = Some w \<Longrightarrow> same_date (Some w) = Some w"
  by (erule floor_ms_Some) (simp add: same_date_def)

lemma rounded_idem:
  "floor_ms msPerDay (same_date (floor_ms msPerDay (same_date t)))
   = floor_ms msPerDay (same_date t)"
  "floor_ms msPerDay (week_start (floor_ms msPerDay (week_start t)))
   = floor_ms msPerDay (week_start t)"
  "floor_ms msPerDay (month_first (floor_ms msPerDay (month_first t)))
   = floor_ms msPerDay (month_first t)"
  "floor_ms msPerDay (year_first (floor_ms msPerDay (year_first t)))
   = floor_ms msPerDay (year_first t)"
  by (rule two_step_idem, erule same_date_fixed', simp add: same_date_def,
      rule two_step_idem, erule week_start_fixed, simp add: week_start_def,
      rule two_step_idem, erule month_first_fixed, simp add: month_first_def,
      rule two_step_idem, erule year_first_fixed, simp add: year_first_def)

lemma round_date_frame:
  assumes "round_date tg H r u n f = Inr (H', r')"
  shows "r' = r \<and> (\<forall>q. q \<noteq> r \<longrightarrow> H' q = H q) \<and> (r \<in> dom H \<longrightarrow> dom H' = dom H)"
  using assms
  by (cases u)
     (auto simp: round_date_def Let_def setUTCDate_def setUTCHours_def setUTCMinutes_def
        setUTCSeconds_def setUTCMilliseconds_def setUTCMonth_def setUTCFullYear_def
        split: if_splits)

text \<open>
  Wherever \<open>round\<close> returns (every unit on an ES5 target, every unit but \<open>"minute"\<close> on a
  later one), rounding with count 1 a date that was so rounded leaves the heap as the
  first rounding left it; and \<open>round\<close>, with any count and first day of week, returns
  the reference it was given, changes no other date and leaves the heap with the
  objects it had.
\<close>

lemma round_idempotent_in_place:
  assumes "date \<in> dom H"
  shows "(round_date tg H date unit 1 None = Inr (H1, d1)
            \<longrightarrow> round_date tg H1 date unit 1 None = Inr (H1, d1))
         \<and> (round_date tg H date unit n f = Inr (H', d')
            \<longrightarrow> d' = date \<and> dom H' = dom H \<and> (\<forall>r. r \<noteq> date \<longrightarrow> H' r = H r))
         \<and> (tg = ES5 \<or> unit \<noteq> Minute \<longrightarrow> (\<exists>H''. round_date tg H date unit n f = Inr (H'', date)))"
proof -
  have idem: "round_date tg H1 date unit 1 None = Inr (H1, d1)"
    if r: "round_date tg H date unit 1 None = Inr (H1, d1)"
  proof (cases "tg = ES2015 \<and> unit = Minute")
    case True
    with r show ?thesis
      by (simp add: round_date_minute_throws)
  next
    case False
    then have "tg = ES5 \<or> unit \<noteq> Minute"
      by (cases tg) auto
    with r show ?thesis
      by (cases unit)
         (auto simp: round_date_1 thisTime_update floor_ms_idem rounded_idem)
  qed
  have frame: "d' = date \<and> dom H' = dom H \<and> (\<forall>r. r \<noteq> date \<longrightarrow> H' r = H r)"
    if "round_date tg H date unit n f = Inr (H', d')"
    using round_date_frame [OF that] assms by simp
  have returns: "\<exists>H''. round_date tg H date unit n f = Inr (H'', date)"
    if "tg = ES5 \<or> unit \<noteq> Minute"
    using that by (rule round_date_returns)
  from idem frame returns show ?thesis
    by auto
qed

lemmas time_defs =
  round_date_1 thisTime_def floor_ms_def month_first_def week_start_def TimeClip_def
  YearFromTime_def YearFromDay_def year_search.simps DayFromYear_def DayFromTime_def
  TimeWithinDay_def MonthFromTime_def DayWithinYear_def InLeapYear_def DaysInYear_def
  month_of_day_def month_start_def WeekDay_def msPerDay_def

lemma round_examples:
  "round_date tg [0 \<mapsto> Some 1552654245678] 0 Month 1 None
   = Inr ([0 \<mapsto> Some 1551398400000], 0)"
  "round_date tg [0 \<mapsto> Some 1551398400000] 0 Month 1 None
   = Inr ([0 \<mapsto> Some 1551398400000], 0)"
  "round_date tg [0 \<mapsto> Some 1552654245678] 0 Week 1 None
   = Inr ([0 \<mapsto> Some 1552262400000], 0)"
  "round_date tg [0 \<mapsto> Some 1552262400000] 0 Week 1 None
   = Inr ([0 \<mapsto> Some 1552262400000], 0)"
  by (simp_all add: time_defs)

text \<open>
  Claim C10, at a failing input. The date 2019-03-15 12:50:45.678 UTC rounded to the
  minute with count 1: on a target with block-scoped \<open>let\<close> the call throws a
  \<open>ReferenceError\<close> and returns no date, whatever the date; only on an ES5 target does it
  return the date, set to 12:50:00.000, and a second rounding leave it there.
\<close>

theorem round_minute_throws_ReferenceError:
  "round_date ES2015 [0 \<mapsto> Some 1552654245678] 0 Minute 1 None = Inl ReferenceError
   \<and> (\<forall>H date n f. round_date ES2015 H date Minute n f = Inl ReferenceError)
   \<and> round_date ES5 [0 \<mapsto> Some 1552654245678] 0 Minute 1 None
       = Inr ([0 \<mapsto> Some 1552654200000], 0)
   \<and> round_date ES5 [0 \<mapsto> Some 1552654200000] 0 Minute 1 None
       = Inr ([0 \<mapsto> Some 1552654200000], 0)"
  by (simp add: round_date_minute_throws time_defs)

end
